theory Spec2Isabelle
  imports Main
begin

section \<open>Data model (internal/models)\<close>

text \<open>
  Instants (Go \<open>time.Time\<close>, SQLite DATETIME columns) are integers: the Unix time in
  nanoseconds. Only their order and their residue modulo 10 are used by the code.
\<close>

type_synonym time = int

datatype OperationType = OperationTypeCreate | OperationTypeUpdate | OperationTypeDelete

datatype SyncStatus = SyncStatusPending | SyncStatusSynced | SyncStatusError

text \<open>\<open>models.Task\<close>; a row of table \<open>tasks\<close> has the same columns.\<close>

record Task =
  ID :: string
  Title :: string
  Description :: "string option"
  Completed :: bool
  IsDeleted :: bool
  SyncStatus :: SyncStatus
  ServerID :: "string option"
  LastSyncedAt :: "time option"
  CreatedAt :: time
  UpdatedAt :: time

text \<open>
  \<open>models.SyncQueueItem\<close>; a row of table \<open>sync_queue\<close>. The Go fields \<open>ID\<close> and
  \<open>CreatedAt\<close> are \<open>ItemID\<close> and \<open>ItemCreatedAt\<close> here (the names are taken by
  \<open>Task\<close>). \<open>RetryCount\<close> is a Go \<open>int\<close> (64 bits, two's complement).
\<close>

record SyncQueueItem =
  ItemID :: int
  TaskID :: string
  OperationType :: OperationType
  TaskData :: string
  RetryCount :: int
  ItemCreatedAt :: time
  LastAttempt :: "time option"
  ErrorMessage :: "string option"

record CreateTaskRequest =
  ReqTitle :: string
  ReqDescription :: "string option"

record UpdateTaskRequest =
  UpdTitle :: "string option"
  UpdDescription :: "string option"
  UpdCompleted :: "bool option"

text \<open>\<open>config.Config\<close>.\<close>

record Config =
  Port :: string
  DatabasePath :: string
  SyncBatchSize :: int
  MaxRetries :: int

text \<open>\<open>services.SyncStatus\<close>, the aggregate returned by \<open>GetSyncStatus\<close>.\<close>

record SyncStatusReport =
  PendingCount :: int
  ErrorCount :: int
  LastSync :: time
  InProgress :: bool

section \<open>Store, environment and effects\<close>

text \<open>
  The SQLite database: table \<open>tasks\<close>, table \<open>sync_queue\<close> in rowid (insertion) order,
  and the AUTOINCREMENT counter of \<open>sync_queue.id\<close>.
\<close>

record DB =
  tasks :: "Task list"
  sync_queue :: "SyncQueueItem list"
  sync_queue_seq :: int

text \<open>
  Errors are values. \<open>ErrStore\<close> is any error reported by \<open>database/sql\<close>, \<open>ErrJSON\<close>
  any error of \<open>encoding/json\<close>; \<open>Wrap m e\<close> is \<open>fmt.Errorf(m + ": %w", e)\<close>.
\<close>

datatype error =
    ErrStore
  | ErrJSON
  | ErrSimulatedNetwork
  | ErrTaskNotFound
  | Wrap string error

text \<open>\<open>err.Error()\<close>. The texts of driver and JSON errors are stand-ins.\<close>

fun Error :: "error \<Rightarrow> string" where
  "Error ErrStore = ''store error''"
| "Error ErrJSON = ''json error''"
| "Error ErrSimulatedNetwork = ''simulated network error''"
| "Error ErrTaskNotFound = ''task not found''"
| "Error (Wrap m e) = m @ '': '' @ Error e"

datatype LogEvent =
    LogScanFailed
  | LogProcessFailed int error
  | LogMarkErrorFailed error
  | LogSynced string OperationType
  | LogConflictResolution

text \<open>
  What the code reads from outside itself: the \<open>k\<close>-th reading of \<open>time.Now()\<close>
  (as \<open>UnixNano\<close>), whether the \<open>k\<close>-th call into the store fails, whether
  \<open>rows.Scan\<close> fails on a row, \<open>json.Unmarshal\<close> into a \<open>Task\<close>, \<open>json.Marshal\<close> of a
  \<open>Task\<close>, and \<open>time.Parse\<close> of a stored \<open>last_synced_at\<close> value.
\<close>

record Env =
  clock :: "nat \<Rightarrow> time"
  store_fails :: "nat \<Rightarrow> bool"
  scan_fails :: "SyncQueueItem \<Rightarrow> bool"
  json_unmarshal :: "string \<Rightarrow> Task option"
  json_marshal :: "Task \<Rightarrow> string option"
  parse_time :: "time \<Rightarrow> time option"

text \<open>
  The state threaded through every call: the database, how many clock readings and
  store calls have happened, every call of \<open>syncToServer\<close> with its outcome, and the
  lines written with \<open>log.Printf\<close>.
\<close>

record World =
  db :: DB
  clock_reads :: nat
  store_calls :: nat
  server_calls :: "(OperationType \<times> Task \<times> bool) list"
  logs :: "LogEvent list"

definition Now :: "Env \<Rightarrow> World \<Rightarrow> time \<times> World" where
  "Now env w = (clock env (clock_reads w), w\<lparr>clock_reads := Suc (clock_reads w)\<rparr>)"

text \<open>One call into the store; the first component says whether it failed.\<close>

definition store_call :: "Env \<Rightarrow> World \<Rightarrow> bool \<times> World" where
  "store_call env w = (store_fails env (store_calls w), w\<lparr>store_calls := Suc (store_calls w)\<rparr>)"

definition log_event :: "LogEvent \<Rightarrow> World \<Rightarrow> World" where
  "log_event e w = w\<lparr>logs := logs w @ [e]\<rparr>"

section \<open>Queue items (models/sync_queue.go)\<close>

text \<open>\<open>sq.RetryCount++\<close> on a Go \<open>int\<close>: the increment wraps at \<open>2^63 - 1\<close>.\<close>

definition int64_incr :: "int \<Rightarrow> int" where
  "int64_incr n = (if n = 2 ^ 63 - 1 then - (2 ^ 63) else n + 1)"

definition NewSyncQueueItem ::
  "Env \<Rightarrow> string \<Rightarrow> OperationType \<Rightarrow> Task \<Rightarrow> World \<Rightarrow> (error + SyncQueueItem) \<times> World" where
  "NewSyncQueueItem env taskID opType task w =
     (case json_marshal env task of
        None \<Rightarrow> (Inl ErrJSON, w)
      | Some taskData \<Rightarrow>
          (case Now env w of (now, w1) \<Rightarrow>
             (Inr \<lparr>ItemID = 0, TaskID = taskID, OperationType = opType, TaskData = taskData,
                   RetryCount = 0, ItemCreatedAt = now, LastAttempt = None,
                   ErrorMessage = None\<rparr>, w1)))"

definition GetTaskData :: "Env \<Rightarrow> SyncQueueItem \<Rightarrow> error + Task" where
  "GetTaskData env sq =
     (case json_unmarshal env (TaskData sq) of None \<Rightarrow> Inl ErrJSON | Some task \<Rightarrow> Inr task)"

definition IncrementRetry :: "Env \<Rightarrow> string \<Rightarrow> SyncQueueItem \<Rightarrow> World \<Rightarrow> SyncQueueItem \<times> World" where
  "IncrementRetry env errorMsg sq w =
     (case Now env w of (now, w1) \<Rightarrow>
        (sq\<lparr>RetryCount := int64_incr (RetryCount sq), LastAttempt := Some now,
            ErrorMessage := Some errorMsg\<rparr>, w1))"

section \<open>Sync service (internal/services/sync_service.go)\<close>

subsection \<open>SQL statements\<close>

text \<open>\<open>LIMIT n\<close>: in SQLite a negative limit is no limit.\<close>

definition sql_limit :: "int \<Rightarrow> 'a list \<Rightarrow> 'a list" where
  "sql_limit n xs = (if n < 0 then xs else take (nat n) xs)"

text \<open>
  \<open>SELECT ... FROM sync_queue WHERE retry_count < ? ORDER BY created_at ASC LIMIT ?\<close>.
  Rows with equal \<open>created_at\<close> keep their rowid order (\<open>sort_key\<close> is stable).
\<close>

definition select_pending :: "int \<Rightarrow> int \<Rightarrow> DB \<Rightarrow> SyncQueueItem list" where
  "select_pending maxRetries batchSize d =
     sql_limit batchSize
       (sort_key ItemCreatedAt (filter (\<lambda>i. RetryCount i < maxRetries) (sync_queue d)))"

text \<open>\<open>UPDATE sync_queue SET retry_count = ?, last_attempt = ?, error_message = ? WHERE id = ?\<close>\<close>

definition update_queue_retry :: "int \<Rightarrow> time option \<Rightarrow> string option \<Rightarrow> int \<Rightarrow> DB \<Rightarrow> DB" where
  "update_queue_retry rc la em qid d =
     d\<lparr>sync_queue := map (\<lambda>r. if ItemID r = qid
                               then r\<lparr>RetryCount := rc, LastAttempt := la, ErrorMessage := em\<rparr>
                               else r) (sync_queue d)\<rparr>"

text \<open>\<open>UPDATE tasks SET sync_status = 'synced', last_synced_at = ?, server_id = ? WHERE id = ?\<close>\<close>

definition update_task_synced :: "time \<Rightarrow> string \<Rightarrow> string \<Rightarrow> DB \<Rightarrow> DB" where
  "update_task_synced now serverID tid d =
     d\<lparr>tasks := map (\<lambda>t. if ID t = tid
                          then t\<lparr>SyncStatus := SyncStatusSynced, LastSyncedAt := Some now,
                                 ServerID := Some serverID\<rparr>
                          else t) (tasks d)\<rparr>"

text \<open>\<open>DELETE FROM sync_queue WHERE id = ?\<close>\<close>

definition delete_queue_item :: "int \<Rightarrow> DB \<Rightarrow> DB" where
  "delete_queue_item qid d = d\<lparr>sync_queue := filter (\<lambda>r. ItemID r \<noteq> qid) (sync_queue d)\<rparr>"

text \<open>\<open>UPDATE tasks SET sync_status = 'error' WHERE id = ?\<close>\<close>

definition update_task_error :: "string \<Rightarrow> DB \<Rightarrow> DB" where
  "update_task_error tid d =
     d\<lparr>tasks := map (\<lambda>t. if ID t = tid then t\<lparr>SyncStatus := SyncStatusError\<rparr> else t) (tasks d)\<rparr>"

text \<open>
  \<open>INSERT INTO sync_queue (task_id, operation_type, task_data, retry_count, created_at)\<close>:
  the row gets the next AUTOINCREMENT id and no \<open>last_attempt\<close> or \<open>error_message\<close>.
\<close>

definition insert_queue_item :: "SyncQueueItem \<Rightarrow> DB \<Rightarrow> DB" where
  "insert_queue_item q d =
     d\<lparr>sync_queue := sync_queue d @
          [q\<lparr>ItemID := sync_queue_seq d + 1, LastAttempt := None, ErrorMessage := None\<rparr>],
       sync_queue_seq := sync_queue_seq d + 1\<rparr>"

subsection \<open>Delivery and its bookkeeping\<close>

text \<open>
  \<open>syncToServer\<close>: the simulated remote authority. It fails when the clock reading is a
  multiple of 10 (\<open>time.Now().UnixNano()%10 == 0\<close>). Every call is recorded in
  \<open>server_calls\<close>. The result is \<open>(success, err)\<close>.
\<close>

definition syncToServer ::
  "Env \<Rightarrow> OperationType \<Rightarrow> Task \<Rightarrow> World \<Rightarrow> (bool \<times> error option) \<times> World" where
  "syncToServer env opType task w =
     (case Now env w of (now, w1) \<Rightarrow>
        if now mod 10 = 0
        then ((False, Some ErrSimulatedNetwork),
              w1\<lparr>server_calls := server_calls w1 @ [(opType, task, False)]\<rparr>)
        else ((True, None),
              log_event (LogSynced (ID task) opType)
                (w1\<lparr>server_calls := server_calls w1 @ [(opType, task, True)]\<rparr>)))"

definition markTaskAsError :: "Env \<Rightarrow> string \<Rightarrow> World \<Rightarrow> error option \<times> World" where
  "markTaskAsError env taskID w =
     (case store_call env w of (failed, w1) \<Rightarrow>
        if failed then (Some ErrStore, w1)
        else (None, w1\<lparr>db := update_task_error taskID (db w1)\<rparr>))"

definition handleSyncError ::
  "Env \<Rightarrow> Config \<Rightarrow> SyncQueueItem \<Rightarrow> error option \<Rightarrow> World \<Rightarrow> error option \<times> World" where
  "handleSyncError env cfg item syncErr w =
     (let errorMsg = (case syncErr of None \<Rightarrow> ''unknown error'' | Some e \<Rightarrow> Error e) in
      case IncrementRetry env errorMsg item w of (item1, w1) \<Rightarrow>
      case store_call env w1 of (failed, w2) \<Rightarrow>
        if failed then (Some (Wrap ''failed to update sync queue item'' ErrStore), w2)
        else
          (let w3 = w2\<lparr>db := update_queue_retry (RetryCount item1) (LastAttempt item1)
                                 (ErrorMessage item1) (ItemID item1) (db w2)\<rparr> in
           if RetryCount item1 \<ge> MaxRetries cfg
           then (case markTaskAsError env (TaskID item1) w3 of
                   (Some e, w4) \<Rightarrow> (None, log_event (LogMarkErrorFailed e) w4)
                 | (None, w4) \<Rightarrow> (None, w4))
           else (None, w3)))"

text \<open>
  \<open>markAsSynced\<close>: both statements run in one transaction. The transaction's view
  (\<open>tx1\<close>, \<open>tx2\<close>) replaces the database only when \<open>Commit\<close> succeeds; every earlier
  return runs the deferred \<open>Rollback\<close>, which drops the view.
\<close>

definition markAsSynced ::
  "Env \<Rightarrow> SyncQueueItem \<Rightarrow> Task \<Rightarrow> World \<Rightarrow> error option \<times> World" where
  "markAsSynced env item task w =
     (case store_call env w of (beginFailed, w0) \<Rightarrow>
        if beginFailed then (Some ErrStore, w0)
        else
          case Now env w0 of (now, w1) \<Rightarrow>
          case store_call env w1 of (updateFailed, w2) \<Rightarrow>
            if updateFailed then (Some (Wrap ''failed to update task sync status'' ErrStore), w2)
            else
              (let tx1 = update_task_synced now (ID task) (ID task) (db w2) in
               case store_call env w2 of (deleteFailed, w3) \<Rightarrow>
                 if deleteFailed then (Some (Wrap ''failed to remove from sync queue'' ErrStore), w3)
                 else
                   (let tx2 = delete_queue_item (ItemID item) tx1 in
                    case store_call env w3 of (commitFailed, w4) \<Rightarrow>
                      if commitFailed then (Some ErrStore, w4)
                      else (None, w4\<lparr>db := tx2\<rparr>))))"

definition processSyncItem ::
  "Env \<Rightarrow> Config \<Rightarrow> SyncQueueItem \<Rightarrow> World \<Rightarrow> error option \<times> World" where
  "processSyncItem env cfg item w =
     (case GetTaskData env item of
        Inl e \<Rightarrow> (Some (Wrap ''failed to parse task data'' e), w)
      | Inr task \<Rightarrow>
          (case syncToServer env (OperationType item) task w of ((success, err), w1) \<Rightarrow>
             if err \<noteq> None \<or> \<not> success then handleSyncError env cfg item err w1
             else markAsSynced env item task w1))"

subsection \<open>The processing pass\<close>

text \<open>The \<open>rows.Next()\<close> loop: a row whose \<open>Scan\<close> fails is logged and left out.\<close>

fun scan_rows :: "Env \<Rightarrow> SyncQueueItem list \<Rightarrow> World \<Rightarrow> SyncQueueItem list \<times> World" where
  "scan_rows env [] w = ([], w)"
| "scan_rows env (r # rs) w =
     (if scan_fails env r then scan_rows env rs (log_event LogScanFailed w)
      else (case scan_rows env rs w of (items, w1) \<Rightarrow> (r # items, w1)))"

text \<open>The \<open>for _, item := range items\<close> loop: an item's error is logged, never returned.\<close>

fun process_items :: "Env \<Rightarrow> Config \<Rightarrow> SyncQueueItem list \<Rightarrow> World \<Rightarrow> World" where
  "process_items env cfg [] w = w"
| "process_items env cfg (item # items) w =
     (case processSyncItem env cfg item w of
        (Some e, w1) \<Rightarrow> process_items env cfg items (log_event (LogProcessFailed (ItemID item) e) w1)
      | (None, w1) \<Rightarrow> process_items env cfg items w1)"

definition ProcessSyncQueue :: "Env \<Rightarrow> Config \<Rightarrow> World \<Rightarrow> error option \<times> World" where
  "ProcessSyncQueue env cfg w =
     (case store_call env w of (queryFailed, w1) \<Rightarrow>
        if queryFailed then (Some (Wrap ''failed to query sync queue'' ErrStore), w1)
        else
          case scan_rows env (select_pending (MaxRetries cfg) (SyncBatchSize cfg) (db w1)) w1 of
            (items, w2) \<Rightarrow> (None, process_items env cfg items w2))"

text \<open>
  What a pass hands to the remote authority for a list of fetched rows: for every row
  that scans and whose snapshot decodes, in the order of the list, its operation kind and
  the decoded snapshot. \<open>calls_made\<close> reads the same pairs off the record of calls.
\<close>

definition deliverable :: "Env \<Rightarrow> SyncQueueItem list \<Rightarrow> (OperationType \<times> Task) list" where
  "deliverable env rows =
     List.map_filter
       (\<lambda>i. map_option (Pair (OperationType i)) (json_unmarshal env (TaskData i)))
       (filter (\<lambda>r. \<not> scan_fails env r) rows)"

definition calls_made :: "World \<Rightarrow> (OperationType \<times> Task) list" where
  "calls_made w = map (\<lambda>c. (fst c, fst (snd c))) (server_calls w)"

text \<open>Repeated invocation of the pass (a timer, or \<open>POST /sync/trigger\<close> again and again).\<close>

fun passes :: "Env \<Rightarrow> Config \<Rightarrow> nat \<Rightarrow> World \<Rightarrow> World" where
  "passes env cfg 0 w = w"
| "passes env cfg (Suc n) w = passes env cfg n (snd (ProcessSyncQueue env cfg w))"

subsection \<open>Conflict resolution and status\<close>

text \<open>\<open>ResolveConflicts\<close> writes one log line and returns \<open>nil\<close>.\<close>

definition ResolveConflicts :: "World \<Rightarrow> error option \<times> World" where
  "ResolveConflicts w = (None, log_event LogConflictResolution w)"

text \<open>\<open>SELECT MAX(last_synced_at) FROM tasks WHERE last_synced_at IS NOT NULL\<close>; NULL on no row.\<close>

fun sql_max :: "time option list \<Rightarrow> time option" where
  "sql_max [] = None"
| "sql_max (None # xs) = sql_max xs"
| "sql_max (Some t # xs) = (case sql_max xs of None \<Rightarrow> Some t | Some m \<Rightarrow> Some (max t m))"

text \<open>\<open>time.Unix(0, 0)\<close>\<close>

definition unix_epoch :: time where
  "unix_epoch = 0"

text \<open>
  \<open>GetSyncStatus\<close>: three queries, each of which may fail. The stored text of a
  \<open>last_synced_at\<close> is never empty, so \<open>lastSyncStr.String != ""\<close> holds whenever the
  value is not NULL.
\<close>

definition GetSyncStatus :: "Env \<Rightarrow> Config \<Rightarrow> World \<Rightarrow> (error + SyncStatusReport) \<times> World" where
  "GetSyncStatus env cfg w =
     (case store_call env w of (failed1, w1) \<Rightarrow>
        if failed1 then (Inl ErrStore, w1)
        else
          (let pendingCount =
                 int (length (filter (\<lambda>i. RetryCount i < MaxRetries cfg) (sync_queue (db w1)))) in
           case store_call env w1 of (failed2, w2) \<Rightarrow>
             if failed2 then (Inl ErrStore, w2)
             else
               (let errorCount =
                      int (length (filter (\<lambda>t. SyncStatus t = SyncStatusError) (tasks (db w2)))) in
                case store_call env w2 of (failed3, w3) \<Rightarrow>
                  if failed3 then (Inl ErrStore, w3)
                  else
                    (let lastSyncStr = sql_max (map LastSyncedAt (tasks (db w3)));
                         lastSync =
                           (case lastSyncStr of
                              Some s \<Rightarrow>
                                (case parse_time env s of
                                   Some parsed \<Rightarrow> parsed
                                 | None \<Rightarrow> unix_epoch)
                            | None \<Rightarrow> unix_epoch)
                     in (Inr \<lparr>PendingCount = pendingCount, ErrorCount = errorCount,
                              LastSync = lastSync, InProgress = False\<rparr>, w3)))))"

subsection \<open>Enqueueing\<close>

definition AddToQueueTx ::
  "Env \<Rightarrow> string \<Rightarrow> OperationType \<Rightarrow> Task \<Rightarrow> DB \<Rightarrow> World \<Rightarrow> error option \<times> DB \<times> World" where
  "AddToQueueTx env taskID opType task tx w =
     (case NewSyncQueueItem env taskID opType task w of
        (Inl e, w1) \<Rightarrow> (Some (Wrap ''failed to create queue item'' e), tx, w1)
      | (Inr queueItem, w1) \<Rightarrow>
          (case store_call env w1 of (failed, w2) \<Rightarrow>
             if failed then (Some (Wrap ''failed to insert into sync queue'' ErrStore), tx, w2)
             else (None, insert_queue_item queueItem tx, w2)))"

definition AddToQueue ::
  "Env \<Rightarrow> string \<Rightarrow> OperationType \<Rightarrow> Task \<Rightarrow> World \<Rightarrow> error option \<times> World" where
  "AddToQueue env taskID opType task w =
     (case store_call env w of (beginFailed, w1) \<Rightarrow>
        if beginFailed then (Some ErrStore, w1)
        else
          case AddToQueueTx env taskID opType task (db w1) w1 of
            (Some e, tx, w2) \<Rightarrow> (Some e, w2)
          | (None, tx, w2) \<Rightarrow>
              (case store_call env w2 of (commitFailed, w3) \<Rightarrow>
                 if commitFailed then (Some ErrStore, w3) else (None, w3\<lparr>db := tx\<rparr>)))"

section \<open>Task service (internal/services/task_service.go)\<close>

text \<open>\<open>models.NewTask\<close>; \<open>uuid\<close> is the value of \<open>uuid.New().String()\<close>.\<close>

definition NewTask :: "Env \<Rightarrow> string \<Rightarrow> string option \<Rightarrow> string \<Rightarrow> World \<Rightarrow> Task \<times> World" where
  "NewTask env title description uuid w =
     (case Now env w of (now, w1) \<Rightarrow>
        (\<lparr>ID = uuid, Title = title, Description = description, Completed = False,
          IsDeleted = False, SyncStatus = SyncStatusPending, ServerID = None,
          LastSyncedAt = None, CreatedAt = now, UpdatedAt = now\<rparr>, w1))"

definition Update :: "Env \<Rightarrow> UpdateTaskRequest \<Rightarrow> Task \<Rightarrow> World \<Rightarrow> Task \<times> World" where
  "Update env req t w =
     (let t1 = (case UpdTitle req of Some title \<Rightarrow> t\<lparr>Title := title\<rparr> | None \<Rightarrow> t);
          t2 = (case UpdDescription req of Some d \<Rightarrow> t1\<lparr>Description := Some d\<rparr> | None \<Rightarrow> t1);
          t3 = (case UpdCompleted req of Some c \<Rightarrow> t2\<lparr>Completed := c\<rparr> | None \<Rightarrow> t2)
      in case Now env w of (now, w1) \<Rightarrow>
           (t3\<lparr>UpdatedAt := now, SyncStatus := SyncStatusPending\<rparr>, w1))"

definition SoftDelete :: "Env \<Rightarrow> Task \<Rightarrow> World \<Rightarrow> Task \<times> World" where
  "SoftDelete env t w =
     (case Now env w of (now, w1) \<Rightarrow>
        (t\<lparr>IsDeleted := True, UpdatedAt := now, SyncStatus := SyncStatusPending\<rparr>, w1))"

text \<open>\<open>SELECT ... FROM tasks WHERE id = ? AND is_deleted = 0\<close>, read outside any transaction.\<close>

definition GetTaskByID :: "Env \<Rightarrow> string \<Rightarrow> World \<Rightarrow> (error + Task) \<times> World" where
  "GetTaskByID env tid w =
     (case store_call env w of (failed, w1) \<Rightarrow>
        if failed then (Inl (Wrap ''failed to get task'' ErrStore), w1)
        else
          (case find (\<lambda>t. ID t = tid \<and> \<not> IsDeleted t) (tasks (db w1)) of
             None \<Rightarrow> (Inl ErrTaskNotFound, w1)
           | Some t \<Rightarrow> (Inr t, w1)))"

text \<open>
  \<open>CreateTask\<close>. The INSERT fails when the store does or when the primary key \<open>id\<close> is
  already present.
\<close>

definition CreateTask ::
  "Env \<Rightarrow> CreateTaskRequest \<Rightarrow> string \<Rightarrow> World \<Rightarrow> (error + Task) \<times> World" where
  "CreateTask env req uuid w =
     (case NewTask env (ReqTitle req) (ReqDescription req) uuid w of (task, w0) \<Rightarrow>
      case store_call env w0 of (beginFailed, w1) \<Rightarrow>
        if beginFailed then (Inl (Wrap ''failed to begin transaction'' ErrStore), w1)
        else
          case store_call env w1 of (insertFailed, w2) \<Rightarrow>
            if insertFailed \<or> ID task \<in> set (map ID (tasks (db w2)))
            then (Inl (Wrap ''failed to insert task'' ErrStore), w2)
            else
              (let tx1 = (db w2)\<lparr>tasks := tasks (db w2) @ [task]\<rparr> in
               case AddToQueueTx env (ID task) OperationTypeCreate task tx1 w2 of
                 (Some e, tx2, w3) \<Rightarrow> (Inl (Wrap ''failed to add to sync queue'' e), w3)
               | (None, tx2, w3) \<Rightarrow>
                   (case store_call env w3 of (commitFailed, w4) \<Rightarrow>
                      if commitFailed then (Inl (Wrap ''failed to commit transaction'' ErrStore), w4)
                      else (Inr task, w4\<lparr>db := tx2\<rparr>))))"

text \<open>
  \<open>UPDATE tasks SET title = ?, description = ?, completed = ?, updated_at = ?,
  sync_status = ? WHERE id = ? AND is_deleted = 0\<close>
\<close>

definition update_task_row :: "Task \<Rightarrow> string \<Rightarrow> DB \<Rightarrow> DB" where
  "update_task_row task tid d =
     d\<lparr>tasks := map (\<lambda>t. if ID t = tid \<and> \<not> IsDeleted t
                          then t\<lparr>Title := Title task, Description := Description task,
                                 Completed := Completed task, UpdatedAt := UpdatedAt task,
                                 SyncStatus := SyncStatus task\<rparr>
                          else t) (tasks d)\<rparr>"

definition UpdateTask ::
  "Env \<Rightarrow> string \<Rightarrow> UpdateTaskRequest \<Rightarrow> World \<Rightarrow> (error + Task) \<times> World" where
  "UpdateTask env tid req w =
     (case store_call env w of (beginFailed, w1) \<Rightarrow>
        if beginFailed then (Inl (Wrap ''failed to begin transaction'' ErrStore), w1)
        else
          case GetTaskByID env tid w1 of
            (Inl e, w2) \<Rightarrow> (Inl e, w2)
          | (Inr task0, w2) \<Rightarrow>
              (case Update env req task0 w2 of (task, w3) \<Rightarrow>
               case store_call env w3 of (updateFailed, w4) \<Rightarrow>
                 if updateFailed then (Inl (Wrap ''failed to update task'' ErrStore), w4)
                 else
                   (let tx1 = update_task_row task tid (db w4);
                        rowsAffected =
                          length (filter (\<lambda>t. ID t = tid \<and> \<not> IsDeleted t) (tasks (db w4)))
                    in if rowsAffected = 0 then (Inl ErrTaskNotFound, w4)
                       else
                         case AddToQueueTx env (ID task) OperationTypeUpdate task tx1 w4 of
                           (Some e, tx2, w5) \<Rightarrow> (Inl (Wrap ''failed to add to sync queue'' e), w5)
                         | (None, tx2, w5) \<Rightarrow>
                             (case store_call env w5 of (commitFailed, w6) \<Rightarrow>
                                if commitFailed
                                then (Inl (Wrap ''failed to commit transaction'' ErrStore), w6)
                                else (Inr task, w6\<lparr>db := tx2\<rparr>)))))"

text \<open>\<open>UPDATE tasks SET is_deleted = 1, updated_at = ?, sync_status = ? WHERE id = ?\<close>\<close>

definition soft_delete_row :: "Task \<Rightarrow> string \<Rightarrow> DB \<Rightarrow> DB" where
  "soft_delete_row task tid d =
     d\<lparr>tasks := map (\<lambda>t. if ID t = tid
                          then t\<lparr>IsDeleted := True, UpdatedAt := UpdatedAt task,
                                 SyncStatus := SyncStatus task\<rparr>
                          else t) (tasks d)\<rparr>"

definition DeleteTask :: "Env \<Rightarrow> string \<Rightarrow> World \<Rightarrow> error option \<times> World" where
  "DeleteTask env tid w =
     (case store_call env w of (beginFailed, w1) \<Rightarrow>
        if beginFailed then (Some (Wrap ''failed to begin transaction'' ErrStore), w1)
        else
          case GetTaskByID env tid w1 of
            (Inl e, w2) \<Rightarrow> (Some e, w2)
          | (Inr task0, w2) \<Rightarrow>
              (case SoftDelete env task0 w2 of (task, w3) \<Rightarrow>
               case store_call env w3 of (deleteFailed, w4) \<Rightarrow>
                 if deleteFailed then (Some (Wrap ''failed to delete task'' ErrStore), w4)
                 else
                   (let tx1 = soft_delete_row task tid (db w4);
                        rowsAffected = length (filter (\<lambda>t. ID t = tid) (tasks (db w4)))
                    in if rowsAffected = 0 then (Some ErrTaskNotFound, w4)
                       else
                         case AddToQueueTx env (ID task) OperationTypeDelete task tx1 w4 of
                           (Some e, tx2, w5) \<Rightarrow> (Some (Wrap ''failed to add to sync queue'' e), w5)
                         | (None, tx2, w5) \<Rightarrow>
                             (case store_call env w5 of (commitFailed, w6) \<Rightarrow>
                                if commitFailed then (Some ErrStore, w6)
                                else (None, w6\<lparr>db := tx2\<rparr>)))))"

section \<open>Sync handler (internal/handlers/sync_handler.go)\<close>



section \<open>Reachable states\<close>

text \<open>
  \<open>evolves env cfg w0 w\<close>: the task service and the pass, called any number of times in
  any order, take the state \<open>w0\<close> to \<open>w\<close>. The states the service can be in are those
  the empty store evolves to.
\<close>

definition empty_world :: World where
  "empty_world =
     \<lparr>db = \<lparr>tasks = [], sync_queue = [], sync_queue_seq = 0\<rparr>,
      clock_reads = 0, store_calls = 0, server_calls = [], logs = []\<rparr>"

inductive evolves :: "Env \<Rightarrow> Config \<Rightarrow> World \<Rightarrow> World \<Rightarrow> bool"
  for env :: Env and cfg :: Config and w0 :: World where
  start: "evolves env cfg w0 w0"
| create: "evolves env cfg w0 w \<Longrightarrow> evolves env cfg w0 (snd (CreateTask env req uuid w))"
| update: "evolves env cfg w0 w \<Longrightarrow> evolves env cfg w0 (snd (UpdateTask env tid upd w))"
| delete: "evolves env cfg w0 w \<Longrightarrow> evolves env cfg w0 (snd (DeleteTask env tid w))"
| pass: "evolves env cfg w0 w \<Longrightarrow> evolves env cfg w0 (snd (ProcessSyncQueue env cfg w))"

definition reachable :: "Env \<Rightarrow> Config \<Rightarrow> World \<Rightarrow> bool" where
  "reachable env cfg w \<longleftrightarrow> evolves env cfg empty_world w"

text \<open>
  Two invariants of the queue. \<open>ids_ok\<close>: ids are unique and were handed out by the
  AUTOINCREMENT counter, retry counts are not negative. \<open>chronological\<close>: creation times
  do not decrease along insertion order and none is later than the current clock reading.
\<close>

definition ids_ok :: "World \<Rightarrow> bool" where
  "ids_ok w \<longleftrightarrow>
     distinct (map ItemID (sync_queue (db w))) \<and>
     (\<forall>i \<in> set (sync_queue (db w)). ItemID i \<le> sync_queue_seq (db w)) \<and>
     (\<forall>i \<in> set (sync_queue (db w)). 0 \<le> RetryCount i)"

definition chronological :: "Env \<Rightarrow> World \<Rightarrow> bool" where
  "chronological env w \<longleftrightarrow>
     sorted (map ItemCreatedAt (sync_queue (db w))) \<and>
     (\<forall>i \<in> set (sync_queue (db w)). ItemCreatedAt i \<le> clock env (clock_reads w))"

section \<open>Concrete inputs\<close>

text \<open>
  A task \<open>t1\<close> created with title A, then updated to title B, then soft-deleted (at
  the same instant as the update), the queue entries these mutations produce, and the
  configuration of the repository's tests.
\<close>

definition demo_task_A :: Task where
  "demo_task_A = \<lparr>ID = ''t1'', Title = ''A'', Description = None, Completed = False,
                  IsDeleted = False, SyncStatus = SyncStatusPending, ServerID = None,
                  LastSyncedAt = None, CreatedAt = 1, UpdatedAt = 1\<rparr>"

definition demo_task_B :: Task where
  "demo_task_B = \<lparr>ID = ''t1'', Title = ''B'', Description = None, Completed = False,
                  IsDeleted = False, SyncStatus = SyncStatusPending, ServerID = None,
                  LastSyncedAt = None, CreatedAt = 1, UpdatedAt = 2\<rparr>"

definition demo_task_D :: Task where
  "demo_task_D = \<lparr>ID = ''t1'', Title = ''B'', Description = None, Completed = False,
                  IsDeleted = True, SyncStatus = SyncStatusPending, ServerID = None,
                  LastSyncedAt = None, CreatedAt = 1, UpdatedAt = 2\<rparr>"

definition demo_item1 :: SyncQueueItem where
  "demo_item1 = \<lparr>ItemID = 1, TaskID = ''t1'', OperationType = OperationTypeCreate,
                 TaskData = ''snapshot A'', RetryCount = 0, ItemCreatedAt = 1,
                 LastAttempt = None, ErrorMessage = None\<rparr>"

definition demo_item2 :: SyncQueueItem where
  "demo_item2 = \<lparr>ItemID = 2, TaskID = ''t1'', OperationType = OperationTypeUpdate,
                 TaskData = ''snapshot B'', RetryCount = 0, ItemCreatedAt = 2,
                 LastAttempt = None, ErrorMessage = None\<rparr>"

definition demo_item3 :: SyncQueueItem where
  "demo_item3 = \<lparr>ItemID = 3, TaskID = ''t1'', OperationType = OperationTypeDelete,
                 TaskData = ''snapshot D'', RetryCount = 0, ItemCreatedAt = 3,
                 LastAttempt = None, ErrorMessage = None\<rparr>"

definition demo_db :: DB where
  "demo_db = \<lparr>tasks = [demo_task_B], sync_queue = [demo_item1, demo_item2], sync_queue_seq = 2\<rparr>"

definition demo_world :: World where
  "demo_world = \<lparr>db = demo_db, clock_reads = 0, store_calls = 0, server_calls = [], logs = []\<rparr>"

definition demo_cfg :: Config where
  "demo_cfg = \<lparr>Port = ''3000'', DatabasePath = '':memory:'', SyncBatchSize = 5, MaxRetries = 3\<rparr>"

text \<open>
  An environment in which the store never fails and the clock is never a multiple of
  10, so that every delivery succeeds; and one whose clock always is, so that every
  delivery fails. The codec knows the three snapshots and rejects every other text.
\<close>

definition demo_unmarshal :: "string \<Rightarrow> Task option" where
  "demo_unmarshal s =
     (if s = ''snapshot A'' then Some demo_task_A
      else if s = ''snapshot B'' then Some demo_task_B
      else if s = ''snapshot D'' then Some demo_task_D
      else None)"

definition demo_marshal :: "Task \<Rightarrow> string option" where
  "demo_marshal t = Some (if IsDeleted t then ''snapshot D'' else ''snapshot '' @ Title t)"

definition demo_env :: Env where
  "demo_env = \<lparr>clock = (\<lambda>k. 10 * int k + 1), store_fails = (\<lambda>k. False),
               scan_fails = (\<lambda>r. False), json_unmarshal = demo_unmarshal,
               json_marshal = demo_marshal, parse_time = Some\<rparr>"

definition failing_env :: Env where
  "failing_env = \<lparr>clock = (\<lambda>k. 10 * int k), store_fails = (\<lambda>k. False),
                  scan_fails = (\<lambda>r. False), json_unmarshal = demo_unmarshal,
                  json_marshal = demo_marshal, parse_time = Some\<rparr>"

text \<open>An environment whose store rejects every call.\<close>

definition broken_store_env :: Env where
  "broken_store_env = \<lparr>clock = (\<lambda>k. 10 * int k + 1), store_fails = (\<lambda>k. True),
                       scan_fails = (\<lambda>r. False), json_unmarshal = demo_unmarshal,
                       json_marshal = demo_marshal, parse_time = Some\<rparr>"

text \<open>An environment whose store rejects exactly its call number \<open>n\<close> (counted from 0).\<close>

definition store_fails_at :: "nat \<Rightarrow> Env" where
  "store_fails_at n = \<lparr>clock = (\<lambda>k. 10 * int k + 1), store_fails = (\<lambda>k. k = n),
                       scan_fails = (\<lambda>r. False), json_unmarshal = demo_unmarshal,
                       json_marshal = demo_marshal, parse_time = Some\<rparr>"

definition demo_create_request :: CreateTaskRequest where
  "demo_create_request = \<lparr>ReqTitle = ''C'', ReqDescription = None\<rparr>"

definition demo_update_request :: UpdateTaskRequest where
  "demo_update_request = \<lparr>UpdTitle = Some ''C'', UpdDescription = None, UpdCompleted = Some True\<rparr>"

text \<open>
  A queue whose first entry has a snapshot that does not decode, followed by the update
  entry of the same task \<open>t1\<close>.
\<close>

definition corrupt_item :: SyncQueueItem where
  "corrupt_item = \<lparr>ItemID = 1, TaskID = ''t1'', OperationType = OperationTypeCreate,
                   TaskData = ''corrupt'', RetryCount = 0, ItemCreatedAt = 1,
                   LastAttempt = None, ErrorMessage = None\<rparr>"

definition corrupt_world :: World where
  "corrupt_world =
     \<lparr>db = \<lparr>tasks = [demo_task_B], sync_queue = [corrupt_item, demo_item2], sync_queue_seq = 2\<rparr>,
      clock_reads = 0, store_calls = 0, server_calls = [], logs = []\<rparr>"

text \<open>
  The same queue a little later (one clock reading has been taken), and what a
  \<open>CreateTask\<close> followed by a pass make of it when every delivery fails.
\<close>

definition busy_world :: World where
  "busy_world = corrupt_world\<lparr>clock_reads := 1\<rparr>"

definition busy_world_later :: World where
  "busy_world_later =
     snd (ProcessSyncQueue failing_env demo_cfg
            (snd (CreateTask failing_env demo_create_request ''t2'' busy_world)))"

text \<open>
  An environment whose wall clock is set back by 80 between two requests: the readings are 101, 111, then 31, 41, 51 and so on. The codec round-trips
  the two snapshots that occur. \<open>stepped_back_world\<close> is what \<open>CreateTask\<close> followed by
  \<open>UpdateTask\<close> make of the empty store in that environment.
\<close>

definition created_task :: Task where
  "created_task = \<lparr>ID = ''t1'', Title = ''A'', Description = None, Completed = False,
                   IsDeleted = False, SyncStatus = SyncStatusPending, ServerID = None,
                   LastSyncedAt = None, CreatedAt = 101, UpdatedAt = 101\<rparr>"

definition updated_task :: Task where
  "updated_task = \<lparr>ID = ''t1'', Title = ''C'', Description = None, Completed = True,
                   IsDeleted = False, SyncStatus = SyncStatusPending, ServerID = None,
                   LastSyncedAt = None, CreatedAt = 101, UpdatedAt = 31\<rparr>"

definition stepped_back_unmarshal :: "string \<Rightarrow> Task option" where
  "stepped_back_unmarshal s =
     (if s = ''snapshot A'' then Some created_task
      else if s = ''snapshot C'' then Some updated_task
      else None)"

definition stepped_back_env :: Env where
  "stepped_back_env =
     \<lparr>clock = (\<lambda>k. if k < 2 then 101 + 10 * int k else 11 + 10 * int k),
      store_fails = (\<lambda>k. False), scan_fails = (\<lambda>r. False),
      json_unmarshal = stepped_back_unmarshal, json_marshal = demo_marshal,
      parse_time = Some\<rparr>"

definition stepped_back_world :: World where
  "stepped_back_world =
     snd (UpdateTask stepped_back_env ''t1'' demo_update_request
            (snd (CreateTask stepped_back_env \<lparr>ReqTitle = ''A'', ReqDescription = None\<rparr> ''t1''
                    empty_world)))"

text \<open>
  The claim of the conflict policy, in the spec's words and read on the store (the only
  place where \<open>ResolveConflicts\<close>, which takes no operation and returns only an error,
  could show a choice): of an update and a delete of one task whose snapshots carry the
  same \<open>updated_at\<close>, resolution keeps the delete and drops the update.
\<close>

definition tie_resolved_to_delete :: "Env \<Rightarrow> World \<Rightarrow> World \<Rightarrow> bool" where
  "tie_resolved_to_delete env w w' \<longleftrightarrow>
     (\<forall>u \<in> set (sync_queue (db w)). \<forall>d \<in> set (sync_queue (db w)).
        TaskID u = TaskID d \<and> OperationType u = OperationTypeUpdate \<and>
        OperationType d = OperationTypeDelete \<and>
        json_unmarshal env (TaskData u) \<noteq> None \<and>
        map_option UpdatedAt (json_unmarshal env (TaskData u)) =
          map_option UpdatedAt (json_unmarshal env (TaskData d))
        \<longrightarrow> d \<in> set (sync_queue (db w')) \<and> u \<notin> set (sync_queue (db w')))"

definition tie_world :: World where
  "tie_world =
     \<lparr>db = \<lparr>tasks = [demo_task_D], sync_queue = [demo_item2, demo_item3], sync_queue_seq = 3\<rparr>,
      clock_reads = 0, store_calls = 0, server_calls = [], logs = []\<rparr>"

text \<open>
  The pass over \<open>demo_world\<close> selects both entries. This is its state after the query
  and the first entry, before the second entry: a pass is running.
\<close>

definition mid_pass_world :: World where
  "mid_pass_world = process_items demo_env demo_cfg [demo_item1] (snd (store_call demo_env demo_world))"

section \<open>Basic facts\<close>

lemmas sync_defs = processSyncItem_def GetTaskData_def syncToServer_def handleSyncError_def
  markAsSynced_def markTaskAsError_def IncrementRetry_def Now_def store_call_def log_event_def

lemmas sql_defs = update_queue_retry_def update_task_synced_def delete_queue_item_def
  update_task_error_def insert_queue_item_def

lemmas demo_defs = demo_task_A_def demo_task_B_def demo_task_D_def demo_item1_def
  demo_item2_def demo_item3_def demo_db_def demo_world_def demo_cfg_def demo_unmarshal_def
  demo_marshal_def demo_env_def failing_env_def broken_store_env_def tie_world_def
  mid_pass_world_def store_fails_at_def demo_create_request_def demo_update_request_def
  corrupt_item_def corrupt_world_def empty_world_def created_task_def updated_task_def
  stepped_back_unmarshal_def stepped_back_env_def stepped_back_world_def
  busy_world_def busy_world_later_def

lemmas task_defs = CreateTask_def UpdateTask_def DeleteTask_def AddToQueueTx_def
  NewSyncQueueItem_def NewTask_def Update_def SoftDelete_def GetTaskByID_def

lemma db_Now [simp]: "db (snd (Now env w)) = db w"
  by (simp add: Now_def)

lemma db_log_event [simp]: "db (log_event e w) = db w"
  by (simp add: log_event_def)

lemma server_calls_log_event [simp]: "server_calls (log_event e w) = server_calls w"
  by (simp add: log_event_def)

lemma scan_rows_db [simp]: "db (snd (scan_rows env rs w)) = db w"
  by (induction rs arbitrary: w) (simp_all add: case_prod_beta)

lemma scan_rows_server_calls [simp]: "server_calls (snd (scan_rows env rs w)) = server_calls w"
  by (induction rs arbitrary: w) (simp_all add: case_prod_beta)

lemma scan_rows_items [simp]: "fst (scan_rows env rs w) = filter (\<lambda>r. \<not> scan_fails env r) rs"
  by (induction rs arbitrary: w) (simp_all add: case_prod_beta)


lemma select_pending_none:
  assumes "\<forall>i \<in> set (sync_queue d). maxRetries \<le> RetryCount i"
  shows "select_pending maxRetries batchSize d = []"
proof -
  have "filter (\<lambda>i. RetryCount i < maxRetries) (sync_queue d) = []"
    using assms by (auto simp: filter_empty_conv)
  then show ?thesis by (simp add: select_pending_def sql_limit_def)
qed

lemma ProcessSyncQueue_no_eligible:
  assumes "\<forall>i \<in> set (sync_queue (db w)). MaxRetries cfg \<le> RetryCount i"
  shows "db (snd (ProcessSyncQueue env cfg w)) = db w \<and>
         server_calls (snd (ProcessSyncQueue env cfg w)) = server_calls w"
  using assms
  by (simp add: ProcessSyncQueue_def store_call_def select_pending_none split: prod.splits)

section \<open>Failure bookkeeping\<close>



section \<open>Success bookkeeping\<close>

text \<open>
  C5. \<open>markAsSynced\<close> (the spec's \<open>recordSuccess\<close>) for an entry and the snapshot of its
  own task is all or nothing. Either it returns no error, the entry is gone from the queue
  and every row of the owning task is \<open>synced\<close> with the current clock reading as
  \<open>last_synced_at\<close>; or it returns an error, one of its four store calls (begin, update,
  delete, commit) failed, and the database is exactly as before, so the entry is still
  queued for the next pass.
\<close>

theorem markAsSynced_atomic:
  assumes "ID task = TaskID item"
  shows "(fst (markAsSynced env item task w) = None \<and>
          db (snd (markAsSynced env item task w)) =
            delete_queue_item (ItemID item)
              (update_task_synced (clock env (clock_reads w)) (TaskID item) (TaskID item) (db w)) \<and>
          (\<forall>r \<in> set (sync_queue (db (snd (markAsSynced env item task w)))). ItemID r \<noteq> ItemID item) \<and>
          (\<forall>t \<in> set (tasks (db (snd (markAsSynced env item task w)))).
             ID t = TaskID item \<longrightarrow>
             SyncStatus t = SyncStatusSynced \<and> LastSyncedAt t = Some (clock env (clock_reads w))))
       \<or> (fst (markAsSynced env item task w) \<noteq> None \<and>
           (store_fails env (store_calls w) \<or> store_fails env (store_calls w + 1) \<or>
            store_fails env (store_calls w + 2) \<or> store_fails env (store_calls w + 3)) \<and>
           db (snd (markAsSynced env item task w)) = db w)"
  using assms
  by (auto simp: markAsSynced_def Now_def store_call_def Let_def delete_queue_item_def
      update_task_synced_def eval_nat_numeral split: prod.splits)

theorem markAsSynced_atomic_witness:
  "ID demo_task_A = TaskID demo_item1 \<and>
   fst (markAsSynced demo_env demo_item1 demo_task_A demo_world) = None \<and>
   sync_queue (db (snd (markAsSynced demo_env demo_item1 demo_task_A demo_world))) = [demo_item2] \<and>
   map SyncStatus (tasks (db (snd (markAsSynced demo_env demo_item1 demo_task_A demo_world)))) = [SyncStatusSynced]"
  using markAsSynced_atomic [of demo_task_A demo_item1 demo_env demo_world]
  by (simp add: demo_defs sync_defs sql_defs)

section \<open>A retry limit of zero\<close>

text \<open>
  C10. With \<open>MaxRetries = 0\<close> and a queue whose retry counts are not negative (they start
  at 0 and only grow), the pass selects no entry, and after any number of passes the
  database (queue and tasks) is unchanged and no call of the remote authority was made.
\<close>

theorem passes_MaxRetries_zero:
  assumes "MaxRetries cfg = 0" and "\<forall>i \<in> set (sync_queue (db w)). 0 \<le> RetryCount i"
  shows "select_pending (MaxRetries cfg) (SyncBatchSize cfg) (db w) = [] \<and>
         db (passes env cfg n w) = db w \<and>
         server_calls (passes env cfg n w) = server_calls w"
proof -
  have "db (passes env cfg n w) = db w \<and> server_calls (passes env cfg n w) = server_calls w"
    using assms
  proof (induction n arbitrary: w)
    case 0
    then show ?case by simp
  next
    case (Suc n)
    have s: "db (snd (ProcessSyncQueue env cfg w)) = db w \<and>
         server_calls (snd (ProcessSyncQueue env cfg w)) = server_calls w"
      using Suc.prems by (intro ProcessSyncQueue_no_eligible) simp
    then show ?case using Suc.IH [of "snd (ProcessSyncQueue env cfg w)"] Suc.prems by simp
  qed
  moreover have "select_pending (MaxRetries cfg) (SyncBatchSize cfg) (db w) = []"
    using assms by (intro select_pending_none) simp
  ultimately show ?thesis by simp
qed

theorem passes_MaxRetries_zero_witness:
  "MaxRetries (demo_cfg\<lparr>MaxRetries := 0\<rparr>) = 0 \<and>
   list_all (\<lambda>i. 0 \<le> RetryCount i) (sync_queue (db demo_world)) \<and>
   db (passes demo_env (demo_cfg\<lparr>MaxRetries := 0\<rparr>) (Suc (Suc 0)) demo_world) = demo_db \<and>
   server_calls (passes demo_env (demo_cfg\<lparr>MaxRetries := 0\<rparr>) (Suc (Suc 0)) demo_world) = []"
  using passes_MaxRetries_zero [where cfg = "demo_cfg\<lparr>MaxRetries := 0\<rparr>" and w = demo_world
      and env = demo_env and n = "Suc (Suc 0)"]
  by (simp add: demo_defs)

section \<open>When a task becomes synced\<close>

lemma handleSyncError_length_tasks:
  "length (tasks (db (snd (handleSyncError env cfg item e w)))) = length (tasks (db w))"
  by (simp add: handleSyncError_def markTaskAsError_def IncrementRetry_def Now_def store_call_def
      log_event_def Let_def update_queue_retry_def update_task_error_def
      split: prod.splits option.splits)

lemma handleSyncError_not_synced:
  assumes "i < length (tasks (db w))"
    and "SyncStatus (tasks (db (snd (handleSyncError env cfg item e w))) ! i) = SyncStatusSynced"
  shows "SyncStatus (tasks (db w) ! i) = SyncStatusSynced"
  using assms
  by (auto simp: handleSyncError_def markTaskAsError_def IncrementRetry_def Now_def store_call_def
      log_event_def Let_def update_queue_retry_def update_task_error_def
      split: prod.splits option.splits if_splits)

lemma markAsSynced_length_tasks:
  "length (tasks (db (snd (markAsSynced env item task w)))) = length (tasks (db w))"
  by (simp add: markAsSynced_def Now_def store_call_def Let_def delete_queue_item_def
      update_task_synced_def split: prod.splits)

lemma markAsSynced_newly_synced:
  assumes "i < length (tasks (db w))"
    and "SyncStatus (tasks (db (snd (markAsSynced env item task w))) ! i) = SyncStatusSynced"
    and "SyncStatus (tasks (db w) ! i) \<noteq> SyncStatusSynced"
  shows "ID task = ID (tasks (db w) ! i) \<and> fst (markAsSynced env item task w) = None"
  using assms
  by (auto simp: markAsSynced_def Now_def store_call_def Let_def delete_queue_item_def
      update_task_synced_def split: prod.splits if_splits)

lemma markAsSynced_server_calls [simp]:
  "server_calls (snd (markAsSynced env item task w)) = server_calls w"
  by (simp add: markAsSynced_def Now_def store_call_def Let_def split: prod.splits)

lemma handleSyncError_server_calls [simp]:
  "server_calls (snd (handleSyncError env cfg item e w)) = server_calls w"
  by (simp add: handleSyncError_def markTaskAsError_def IncrementRetry_def Now_def store_call_def
      log_event_def Let_def split: prod.splits option.splits)

text \<open>
  C1, as the code has it. Processing a queue entry whose snapshot decodes, whose delivery
  succeeds and whose four local store calls succeed returns no error and leaves every row
  of the snapshot's task \<open>synced\<close>, whatever else the queue holds, newer entries of the
  same task included. And a task row that is \<open>synced\<close> after processing an entry and was
  not before has the id of that entry's snapshot, and the entry was delivered with
  success: no other path of \<open>processSyncItem\<close> sets \<open>synced\<close>.
\<close>

theorem processSyncItem_synced_by_any_delivery:
  "(json_unmarshal env (TaskData item) = Some task \<and> clock env (clock_reads w) mod 10 \<noteq> 0 \<and>
    \<not> store_fails env (store_calls w) \<and> \<not> store_fails env (store_calls w + 1) \<and>
    \<not> store_fails env (store_calls w + 2) \<and> \<not> store_fails env (store_calls w + 3)
    \<longrightarrow> fst (processSyncItem env cfg item w) = None \<and>
        (\<forall>t \<in> set (tasks (db (snd (processSyncItem env cfg item w)))).
           ID t = ID task \<longrightarrow> SyncStatus t = SyncStatusSynced)) \<and>
   length (tasks (db (snd (processSyncItem env cfg item w)))) = length (tasks (db w)) \<and>
   (\<forall>i < length (tasks (db w)).
      SyncStatus (tasks (db (snd (processSyncItem env cfg item w))) ! i) = SyncStatusSynced \<and>
      SyncStatus (tasks (db w) ! i) \<noteq> SyncStatusSynced
      \<longrightarrow> (\<exists>snapshot. json_unmarshal env (TaskData item) = Some snapshot \<and>
             ID snapshot = ID (tasks (db w) ! i) \<and>
             fst (processSyncItem env cfg item w) = None \<and>
             server_calls (snd (processSyncItem env cfg item w)) =
               server_calls w @ [(OperationType item, snapshot, True)]))"
proof (intro conjI impI allI)
  assume a: "json_unmarshal env (TaskData item) = Some task \<and> clock env (clock_reads w) mod 10 \<noteq> 0 \<and>
    \<not> store_fails env (store_calls w) \<and> \<not> store_fails env (store_calls w + 1) \<and>
    \<not> store_fails env (store_calls w + 2) \<and> \<not> store_fails env (store_calls w + 3)"
  then show "fst (processSyncItem env cfg item w) = None"
    by (simp add: sync_defs sql_defs Let_def eval_nat_numeral)
  from a show "\<forall>t \<in> set (tasks (db (snd (processSyncItem env cfg item w)))).
           ID t = ID task \<longrightarrow> SyncStatus t = SyncStatusSynced"
    by (auto simp: sync_defs sql_defs Let_def eval_nat_numeral)
next
  show "length (tasks (db (snd (processSyncItem env cfg item w)))) = length (tasks (db w))"
    by (simp add: processSyncItem_def GetTaskData_def syncToServer_def Now_def log_event_def
        handleSyncError_length_tasks markAsSynced_length_tasks
        split: option.splits sum.splits prod.splits)
next
  fix i
  assume i: "i < length (tasks (db w))"
    and s: "SyncStatus (tasks (db (snd (processSyncItem env cfg item w))) ! i) = SyncStatusSynced \<and>
      SyncStatus (tasks (db w) ! i) \<noteq> SyncStatusSynced"
  show "\<exists>snapshot. json_unmarshal env (TaskData item) = Some snapshot \<and>
             ID snapshot = ID (tasks (db w) ! i) \<and>
             fst (processSyncItem env cfg item w) = None \<and>
             server_calls (snd (processSyncItem env cfg item w)) =
               server_calls w @ [(OperationType item, snapshot, True)]"
  proof (cases "json_unmarshal env (TaskData item)")
    case None
    with s show ?thesis by (simp add: processSyncItem_def GetTaskData_def)
  next
    case (Some snapshot)
    show ?thesis
    proof (cases "clock env (clock_reads w) mod 10 = 0")
      case True
      let ?w1 = "snd (syncToServer env (OperationType item) snapshot w)"
      have p: "processSyncItem env cfg item w = handleSyncError env cfg item (Some ErrSimulatedNetwork) ?w1"
        using Some True by (simp add: processSyncItem_def GetTaskData_def syncToServer_def Now_def)
      have d: "db ?w1 = db w" using True by (simp add: syncToServer_def Now_def)
      from handleSyncError_not_synced [of i ?w1 env cfg item "Some ErrSimulatedNetwork"] i s p d
      show ?thesis by simp
    next
      case False
      let ?w1 = "snd (syncToServer env (OperationType item) snapshot w)"
      have p: "processSyncItem env cfg item w = markAsSynced env item snapshot ?w1"
        using Some False by (simp add: processSyncItem_def GetTaskData_def syncToServer_def Now_def)
      have d: "db ?w1 = db w" using False by (simp add: syncToServer_def Now_def log_event_def)
      have c: "server_calls ?w1 = server_calls w @ [(OperationType item, snapshot, True)]"
        using False by (simp add: syncToServer_def Now_def log_event_def)
      from markAsSynced_newly_synced [of i ?w1 env item snapshot] i s p d
      have "ID snapshot = ID (tasks (db w) ! i) \<and> fst (markAsSynced env item snapshot ?w1) = None"
        by simp
      with Some p c show ?thesis by simp
    qed
  qed
qed

theorem processSyncItem_synced_by_any_delivery_witness:
  "json_unmarshal demo_env (TaskData demo_item1) = Some demo_task_A \<and>
   clock demo_env (clock_reads demo_world) mod 10 \<noteq> 0 \<and>
   \<not> store_fails demo_env (store_calls demo_world) \<and>
   \<not> store_fails demo_env (store_calls demo_world + 1) \<and>
   \<not> store_fails demo_env (store_calls demo_world + 2) \<and>
   \<not> store_fails demo_env (store_calls demo_world + 3) \<and>
   fst (processSyncItem demo_env demo_cfg demo_item1 demo_world) = None \<and>
   map SyncStatus (tasks (db demo_world)) = [SyncStatusPending] \<and>
   map SyncStatus (tasks (db (snd (processSyncItem demo_env demo_cfg demo_item1 demo_world)))) =
     [SyncStatusSynced] \<and>
   server_calls (snd (processSyncItem demo_env demo_cfg demo_item1 demo_world)) =
     [(OperationTypeCreate, demo_task_A, True)]"
  using processSyncItem_synced_by_any_delivery [where env = demo_env and item = demo_item1
      and task = demo_task_A and w = demo_world and cfg = demo_cfg]
  by (simp add: demo_defs sync_defs sql_defs)

text \<open>
  The claim as stated fails: the queue holds the create entry of task \<open>t1\<close> and, after
  it, the update entry of the same task. Delivering the create entry alone marks \<open>t1\<close>
  \<open>synced\<close> while the newer update entry is still queued.
\<close>

theorem synced_before_latest_counterexample:
  "TaskID demo_item2 = TaskID demo_item1 \<and>
   ItemID demo_item1 < ItemID demo_item2 \<and>
   ItemCreatedAt demo_item1 < ItemCreatedAt demo_item2 \<and>
   sync_queue (db demo_world) = [demo_item1, demo_item2] \<and>
   map SyncStatus (tasks (db demo_world)) = [SyncStatusPending] \<and>
   fst (processSyncItem demo_env demo_cfg demo_item1 demo_world) = None \<and>
   sync_queue (db (snd (processSyncItem demo_env demo_cfg demo_item1 demo_world))) = [demo_item2] \<and>
   map ID (tasks (db (snd (processSyncItem demo_env demo_cfg demo_item1 demo_world)))) = [''t1''] \<and>
   map SyncStatus (tasks (db (snd (processSyncItem demo_env demo_cfg demo_item1 demo_world)))) =
     [SyncStatusSynced]"
  by (simp add: demo_defs sync_defs sql_defs)

section \<open>Conflict resolution\<close>

text \<open>
  C2, as the code has it. \<open>ResolveConflicts\<close> resolves nothing: for every state it returns
  no error, leaves the database and the record of deliveries as they are, and writes one
  log line.
\<close>

theorem ResolveConflicts_noop:
  "fst (ResolveConflicts w) = None \<and>
   db (snd (ResolveConflicts w)) = db w \<and>
   server_calls (snd (ResolveConflicts w)) = server_calls w \<and>
   logs (snd (ResolveConflicts w)) = logs w @ [LogConflictResolution]"
  by (simp add: ResolveConflicts_def log_event_def)

text \<open>
  The claim as stated fails: with an update and a delete of task \<open>t1\<close> queued, both
  snapshots carrying \<open>updated_at = 2\<close>, \<open>ResolveConflicts\<close> leaves both entries queued;
  it does not prefer the delete.
\<close>

theorem tie_break_counterexample:
  "TaskID demo_item2 = TaskID demo_item3 \<and>
   OperationType demo_item2 = OperationTypeUpdate \<and>
   OperationType demo_item3 = OperationTypeDelete \<and>
   map_option UpdatedAt (json_unmarshal demo_env (TaskData demo_item2)) = Some 2 \<and>
   map_option UpdatedAt (json_unmarshal demo_env (TaskData demo_item3)) = Some 2 \<and>
   sync_queue (db tie_world) = [demo_item2, demo_item3] \<and>
   fst (ResolveConflicts tie_world) = None \<and>
   sync_queue (db (snd (ResolveConflicts tie_world))) = [demo_item2, demo_item3] \<and>
   \<not> tie_resolved_to_delete demo_env tie_world (snd (ResolveConflicts tie_world))"
  by (simp add: tie_resolved_to_delete_def ResolveConflicts_def log_event_def demo_defs)

section \<open>Status report\<close>

lemma sql_max_all_None:
  "\<forall>x \<in> set xs. x = None \<Longrightarrow> sql_max xs = None"
  by (induction xs rule: sql_max.induct) auto

text \<open>
  C8, as the code has it. Every report that \<open>GetSyncStatus\<close> returns has \<open>InProgress\<close>
  false, and when no task row has a \<open>last_synced_at\<close> its \<open>LastSync\<close> is the Unix epoch
  (\<open>time.Unix(0, 0)\<close>): the field is a \<open>time.Time\<close>, never absent.
\<close>

theorem GetSyncStatus_epoch_and_never_in_progress:
  assumes "fst (GetSyncStatus env cfg w) = Inr r"
  shows "InProgress r = False \<and>
         ((\<forall>t \<in> set (tasks (db w)). LastSyncedAt t = None) \<longrightarrow> LastSync r = unix_epoch)"
proof -
  have m: "(\<forall>t \<in> set (tasks (db w)). LastSyncedAt t = None) \<Longrightarrow>
        sql_max (map LastSyncedAt (tasks (db w))) = None"
    by (rule sql_max_all_None) auto
  show ?thesis
    using assms m
    by (auto simp: GetSyncStatus_def store_call_def Let_def split: prod.splits if_splits)
qed

theorem GetSyncStatus_epoch_and_never_in_progress_witness:
  "fst (GetSyncStatus demo_env demo_cfg demo_world) =
     Inr \<lparr>PendingCount = 2, ErrorCount = 0, LastSync = unix_epoch, InProgress = False\<rparr> \<and>
   map LastSyncedAt (tasks (db demo_world)) = [None]"
  using GetSyncStatus_epoch_and_never_in_progress [where env = demo_env and cfg = demo_cfg
      and w = demo_world
      and r = "\<lparr>PendingCount = 2, ErrorCount = 0, LastSync = unix_epoch, InProgress = False\<rparr>"]
  by (simp add: demo_defs GetSyncStatus_def store_call_def unix_epoch_def)

text \<open>
  The claim as stated fails. With no task synced yet the report carries the instant 0
  (1970-01-01T00:00:00Z) as its last sync time, a value and not an absence. And in the
  middle of a pass (the first of two selected entries processed, the second still to
  come) the report says \<open>InProgress = False\<close>.
\<close>

theorem status_counterexample:
  "map LastSyncedAt (tasks (db demo_world)) = [None] \<and>
   fst (GetSyncStatus demo_env demo_cfg demo_world) =
     Inr \<lparr>PendingCount = 2, ErrorCount = 0, LastSync = 0, InProgress = False\<rparr> \<and>
   select_pending (MaxRetries demo_cfg) (SyncBatchSize demo_cfg) (db demo_world) =
     [demo_item1, demo_item2] \<and>
   snd (ProcessSyncQueue demo_env demo_cfg demo_world) =
     process_items demo_env demo_cfg [demo_item2] mid_pass_world \<and>
   fst (GetSyncStatus demo_env demo_cfg mid_pass_world) =
     Inr \<lparr>PendingCount = 1, ErrorCount = 0, LastSync = 11, InProgress = False\<rparr>"
  by (simp add: demo_defs GetSyncStatus_def ProcessSyncQueue_def select_pending_def sql_limit_def
      sync_defs sql_defs unix_epoch_def)

section \<open>Calls made by a pass\<close>

lemma processSyncItem_calls_made:
  "calls_made (snd (processSyncItem env cfg item w)) =
     calls_made w @ (case json_unmarshal env (TaskData item) of
                       None \<Rightarrow> [] | Some t \<Rightarrow> [(OperationType item, t)])"
  by (simp add: processSyncItem_def GetTaskData_def syncToServer_def Now_def calls_made_def
      split: option.splits)

lemma calls_made_log_event [simp]: "calls_made (log_event e w) = calls_made w"
  by (simp add: calls_made_def)

lemma process_items_calls_made:
  "calls_made (process_items env cfg items w) =
     calls_made w @ List.map_filter
       (\<lambda>i. map_option (Pair (OperationType i)) (json_unmarshal env (TaskData i))) items"
proof (induction items arbitrary: w)
  case Nil
  then show ?case by (simp add: List.map_filter_simps)
next
  case (Cons item items)
  obtain r w1 where p: "processSyncItem env cfg item w = (r, w1)"
    by (cases "processSyncItem env cfg item w")
  have c: "calls_made w1 = calls_made w @ (case json_unmarshal env (TaskData item) of
                       None \<Rightarrow> [] | Some t \<Rightarrow> [(OperationType item, t)])"
    using processSyncItem_calls_made [of env cfg item w] p by simp
  show ?case
    using p c Cons.IH
    by (cases r; cases "json_unmarshal env (TaskData item)") (simp_all add: List.map_filter_simps)
qed

lemma select_pending_sorted:
  assumes "sorted (map ItemCreatedAt (sync_queue d))"
  shows "select_pending maxRetries batchSize d =
           sql_limit batchSize (filter (\<lambda>i. RetryCount i < maxRetries) (sync_queue d))"
  using assms by (simp add: select_pending_def sorted_filter sort_key_id_if_sorted)

lemma deliverable_all:
  assumes "\<forall>i \<in> set rows. \<not> scan_fails env i \<and> json_unmarshal env (TaskData i) \<noteq> None"
  shows "map fst (deliverable env rows) = map OperationType rows \<and>
         map (\<lambda>c. Some (snd c)) (deliverable env rows) = map (\<lambda>i. json_unmarshal env (TaskData i)) rows"
  using assms
proof (induction rows)
  case Nil
  then show ?case by (simp add: deliverable_def List.map_filter_simps)
next
  case (Cons r rows)
  then obtain t where t: "json_unmarshal env (TaskData r) = Some t" by auto
  have f: "filter (\<lambda>r. \<not> scan_fails env r) (r # rows) = r # filter (\<lambda>r. \<not> scan_fails env r) rows"
    using Cons.prems by simp
  show ?case using Cons t f by (simp add: deliverable_def List.map_filter_simps)
qed

lemma ProcessSyncQueue_unfold:
  assumes "\<not> store_fails env (store_calls w)"
  shows "ProcessSyncQueue env cfg w =
      (None, process_items env cfg
         (filter (\<lambda>r. \<not> scan_fails env r)
            (select_pending (MaxRetries cfg) (SyncBatchSize cfg) (db w)))
         (snd (scan_rows env (select_pending (MaxRetries cfg) (SyncBatchSize cfg) (db w))
                 (snd (store_call env w)))))"
  using assms by (simp add: ProcessSyncQueue_def store_call_def case_prod_beta)

lemma ProcessSyncQueue_calls_made:
  assumes "\<not> store_fails env (store_calls w)"
  shows "calls_made (snd (ProcessSyncQueue env cfg w)) =
           calls_made w @ deliverable env (select_pending (MaxRetries cfg) (SyncBatchSize cfg) (db w))"
proof -
  have c: "calls_made (snd (scan_rows env rows (snd (store_call env w)))) = calls_made w" for rows
    using scan_rows_server_calls [of env rows "snd (store_call env w)"]
    by (simp add: calls_made_def store_call_def)
  show ?thesis
    by (simp add: ProcessSyncQueue_unfold [OF assms] process_items_calls_made c deliverable_def)
qed

section \<open>Error containment in a pass\<close>






section \<open>Enqueueing with the mutation\<close>

lemma find_SomeD: "find P xs = Some x \<Longrightarrow> P x \<and> x \<in> set xs"
  by (auto simp: find_Some_iff)

lemma CreateTask_atomic:
  "(case CreateTask env req uuid w of
      (Inl e, w') \<Rightarrow> db w' = db w
    | (Inr task, w') \<Rightarrow>
        tasks (db w') = tasks (db w) @ [task] \<and>
        (\<exists>q. sync_queue (db w') = sync_queue (db w) @ [q] \<and> TaskID q = ID task \<and>
             OperationType q = OperationTypeCreate \<and> RetryCount q = 0 \<and>
             json_marshal env task = Some (TaskData q)))"
  by (auto simp: task_defs Now_def store_call_def insert_queue_item_def Let_def
      split: prod.splits option.splits sum.splits if_splits)

lemma UpdateTask_atomic:
  "(case UpdateTask env tid req w of
      (Inl e, w') \<Rightarrow> db w' = db w
    | (Inr task, w') \<Rightarrow>
        tasks (db w') = tasks (update_task_row task tid (db w)) \<and>
        (\<exists>q. sync_queue (db w') = sync_queue (db w) @ [q] \<and> TaskID q = ID task \<and>
             OperationType q = OperationTypeUpdate \<and> RetryCount q = 0 \<and>
             json_marshal env task = Some (TaskData q)))"
  by (auto simp: task_defs Now_def store_call_def insert_queue_item_def update_task_row_def Let_def
      split: prod.splits option.splits sum.splits if_splits)

lemma DeleteTask_atomic:
  "(case DeleteTask env tid w of
      (Some e, w') \<Rightarrow> db w' = db w
    | (None, w') \<Rightarrow>
        (\<exists>t0. find (\<lambda>t. ID t = tid \<and> \<not> IsDeleted t) (tasks (db w)) = Some t0 \<and>
           tasks (db w') = tasks (soft_delete_row (fst (SoftDelete env t0 w)) tid (db w)) \<and>
           (\<exists>q. sync_queue (db w') = sync_queue (db w) @ [q] \<and> TaskID q = tid \<and>
                OperationType q = OperationTypeDelete \<and> RetryCount q = 0 \<and>
                json_marshal env (fst (SoftDelete env t0 w)) = Some (TaskData q))))"
  by (auto simp: task_defs Now_def store_call_def insert_queue_item_def soft_delete_row_def Let_def
      dest: find_SomeD split: prod.splits option.splits sum.splits if_splits)

lemma CreateTask_insert_fails:
  assumes "\<not> store_fails env (store_calls w)" "\<not> store_fails env (store_calls w + 1)"
    and "uuid \<notin> set (map ID (tasks (db w)))"
    and "\<forall>t. json_marshal env t \<noteq> None"
    and "store_fails env (store_calls w + 2)"
  shows "fst (CreateTask env req uuid w) =
           Inl (Wrap ''failed to add to sync queue'' (Wrap ''failed to insert into sync queue'' ErrStore))"
  using assms
  by (auto simp: task_defs Now_def store_call_def insert_queue_item_def Let_def eval_nat_numeral
      simp del: not_None_eq split: prod.splits option.splits sum.splits if_splits)

lemma UpdateTask_insert_fails:
  assumes "\<not> store_fails env (store_calls w)" "\<not> store_fails env (store_calls w + 1)"
    and "\<not> store_fails env (store_calls w + 2)"
    and "find (\<lambda>t. ID t = tid \<and> \<not> IsDeleted t) (tasks (db w)) \<noteq> None"
    and "\<forall>t. json_marshal env t \<noteq> None"
    and "store_fails env (store_calls w + 3)"
  shows "fst (UpdateTask env tid req w) =
           Inl (Wrap ''failed to add to sync queue'' (Wrap ''failed to insert into sync queue'' ErrStore))"
  using assms
  by (auto simp: task_defs Now_def store_call_def insert_queue_item_def Let_def eval_nat_numeral
      find_None_iff filter_empty_conv simp del: not_None_eq
      dest: find_SomeD split: prod.splits option.splits sum.splits if_splits)

lemma DeleteTask_insert_fails:
  assumes "\<not> store_fails env (store_calls w)" "\<not> store_fails env (store_calls w + 1)"
    and "\<not> store_fails env (store_calls w + 2)"
    and "find (\<lambda>t. ID t = tid \<and> \<not> IsDeleted t) (tasks (db w)) \<noteq> None"
    and "\<forall>t. json_marshal env t \<noteq> None"
    and "store_fails env (store_calls w + 3)"
  shows "fst (DeleteTask env tid w) =
           Some (Wrap ''failed to add to sync queue'' (Wrap ''failed to insert into sync queue'' ErrStore))"
  using assms
  by (auto simp: task_defs Now_def store_call_def insert_queue_item_def Let_def eval_nat_numeral
      find_None_iff filter_empty_conv simp del: not_None_eq
      dest: find_SomeD split: prod.splits option.splits sum.splits if_splits)

text \<open>
  C6. \<open>CreateTask\<close>, \<open>UpdateTask\<close> and \<open>DeleteTask\<close> write the task row and the queue entry
  in one transaction. Each of them either returns an error and leaves the database
  exactly as it was, or succeeds and leaves the database with both the task change and
  one new queue entry (of the task, of the right kind, with retry count 0, carrying the
  snapshot) appended. In particular, when the store rejects the INSERT into the queue
  (the third store call of \<open>CreateTask\<close>, the fourth of the other two) the call fails
  with the wrapped insert error and the task change is not there either.
\<close>

theorem enqueue_atomic_with_mutation:
  "(case CreateTask env req uuid w of
      (Inl e, w') \<Rightarrow> db w' = db w
    | (Inr task, w') \<Rightarrow>
        tasks (db w') = tasks (db w) @ [task] \<and>
        (\<exists>q. sync_queue (db w') = sync_queue (db w) @ [q] \<and> TaskID q = ID task \<and>
             OperationType q = OperationTypeCreate \<and> RetryCount q = 0 \<and>
             json_marshal env task = Some (TaskData q))) \<and>
   (case UpdateTask env tid upd w of
      (Inl e, w') \<Rightarrow> db w' = db w
    | (Inr task, w') \<Rightarrow>
        tasks (db w') = tasks (update_task_row task tid (db w)) \<and>
        (\<exists>q. sync_queue (db w') = sync_queue (db w) @ [q] \<and> TaskID q = ID task \<and>
             OperationType q = OperationTypeUpdate \<and> RetryCount q = 0 \<and>
             json_marshal env task = Some (TaskData q))) \<and>
   (case DeleteTask env tid w of
      (Some e, w') \<Rightarrow> db w' = db w
    | (None, w') \<Rightarrow>
        (\<exists>t0. find (\<lambda>t. ID t = tid \<and> \<not> IsDeleted t) (tasks (db w)) = Some t0 \<and>
           tasks (db w') = tasks (soft_delete_row (fst (SoftDelete env t0 w)) tid (db w)) \<and>
           (\<exists>q. sync_queue (db w') = sync_queue (db w) @ [q] \<and> TaskID q = tid \<and>
                OperationType q = OperationTypeDelete \<and> RetryCount q = 0 \<and>
                json_marshal env (fst (SoftDelete env t0 w)) = Some (TaskData q)))) \<and>
   ((\<forall>t. json_marshal env t \<noteq> None) \<and> \<not> store_fails env (store_calls w) \<and>
    \<not> store_fails env (store_calls w + 1) \<and> uuid \<notin> set (map ID (tasks (db w))) \<and>
    store_fails env (store_calls w + 2)
    \<longrightarrow> fst (CreateTask env req uuid w) =
          Inl (Wrap ''failed to add to sync queue''
                 (Wrap ''failed to insert into sync queue'' ErrStore)) \<and>
        db (snd (CreateTask env req uuid w)) = db w) \<and>
   ((\<forall>t. json_marshal env t \<noteq> None) \<and> \<not> store_fails env (store_calls w) \<and>
    \<not> store_fails env (store_calls w + 1) \<and> \<not> store_fails env (store_calls w + 2) \<and>
    find (\<lambda>t. ID t = tid \<and> \<not> IsDeleted t) (tasks (db w)) \<noteq> None \<and>
    store_fails env (store_calls w + 3)
    \<longrightarrow> fst (UpdateTask env tid upd w) =
          Inl (Wrap ''failed to add to sync queue''
                 (Wrap ''failed to insert into sync queue'' ErrStore)) \<and>
        db (snd (UpdateTask env tid upd w)) = db w \<and>
        fst (DeleteTask env tid w) =
          Some (Wrap ''failed to add to sync queue''
                  (Wrap ''failed to insert into sync queue'' ErrStore)) \<and>
        db (snd (DeleteTask env tid w)) = db w)"
proof -
  have c: "fst (CreateTask env req uuid w) = Inl e \<Longrightarrow> db (snd (CreateTask env req uuid w)) = db w" for e
    using CreateTask_atomic [where env = env and req = req and uuid = uuid and w = w]
    by (cases "CreateTask env req uuid w") simp
  have u: "fst (UpdateTask env tid upd w) = Inl e \<Longrightarrow> db (snd (UpdateTask env tid upd w)) = db w" for e
    using UpdateTask_atomic [where env = env and req = upd and tid = tid and w = w]
    by (cases "UpdateTask env tid upd w") simp
  have d: "fst (DeleteTask env tid w) = Some e \<Longrightarrow> db (snd (DeleteTask env tid w)) = db w" for e
    using DeleteTask_atomic [where env = env and tid = tid and w = w]
    by (cases "DeleteTask env tid w") simp
  show ?thesis
    using CreateTask_atomic [where env = env and req = req and uuid = uuid and w = w] UpdateTask_atomic [where env = env and req = upd and tid = tid and w = w]
      DeleteTask_atomic [where env = env and tid = tid and w = w]
      CreateTask_insert_fails [where env = env and w = w and uuid = uuid and req = req]
      UpdateTask_insert_fails [where env = env and w = w and tid = tid and req = upd]
      DeleteTask_insert_fails [where env = env and w = w and tid = tid]
      c u d
    by blast
qed

theorem enqueue_atomic_with_mutation_witness:
  "tasks (db (snd (CreateTask demo_env demo_create_request ''t2'' demo_world))) =
     [demo_task_B,
      \<lparr>ID = ''t2'', Title = ''C'', Description = None, Completed = False, IsDeleted = False,
       SyncStatus = SyncStatusPending, ServerID = None, LastSyncedAt = None, CreatedAt = 1,
       UpdatedAt = 1\<rparr>] \<and>
   sync_queue (db (snd (CreateTask demo_env demo_create_request ''t2'' demo_world))) =
     [demo_item1, demo_item2,
      \<lparr>ItemID = 3, TaskID = ''t2'', OperationType = OperationTypeCreate,
       TaskData = ''snapshot C'', RetryCount = 0, ItemCreatedAt = 11, LastAttempt = None,
       ErrorMessage = None\<rparr>] \<and>
   store_fails (store_fails_at 2) (store_calls demo_world + 2) \<and>
   fst (CreateTask (store_fails_at 2) demo_create_request ''t2'' demo_world) =
     Inl (Wrap ''failed to add to sync queue'' (Wrap ''failed to insert into sync queue'' ErrStore)) \<and>
   db (snd (CreateTask (store_fails_at 2) demo_create_request ''t2'' demo_world)) = demo_db \<and>
   store_fails (store_fails_at 3) (store_calls demo_world + 3) \<and>
   db (snd (UpdateTask (store_fails_at 3) ''t1'' demo_update_request demo_world)) = demo_db \<and>
   db (snd (DeleteTask (store_fails_at 3) ''t1'' demo_world)) = demo_db"
  using enqueue_atomic_with_mutation [where env = demo_env and req = demo_create_request
      and uuid = "''t2''" and w = demo_world and tid = "''t1''" and upd = demo_update_request]
    enqueue_atomic_with_mutation [where env = "store_fails_at 2" and req = demo_create_request
      and uuid = "''t2''" and w = demo_world and tid = "''t1''" and upd = demo_update_request]
    enqueue_atomic_with_mutation [where env = "store_fails_at 3" and req = demo_create_request
      and uuid = "''t2''" and w = demo_world and tid = "''t1''" and upd = demo_update_request]
  by (simp add: demo_defs task_defs Now_def store_call_def insert_queue_item_def
      update_task_row_def soft_delete_row_def)

section \<open>An entry keeps its place in the batch\<close>

lemma take_filter_mono:
  "e \<in> set (take n xs) \<Longrightarrow> P e \<Longrightarrow> e \<in> set (take n (filter P xs))"
proof (induction xs arbitrary: n)
  case Nil
  then show ?case by simp
next
  case (Cons x xs)
  show ?case
  proof (cases n)
    case 0
    with Cons.prems show ?thesis by simp
  next
    case (Suc m)
    show ?thesis
    proof (cases "P x")
      case True
      with Cons Suc show ?thesis by auto
    next
      case False
      with Cons.prems Suc have "e \<in> set (take m xs)" by auto
      then have "e \<in> set (take m (filter P xs))" using Cons.IH Cons.prems(2) by blast
      moreover have "set (take m (filter P xs)) \<subseteq> set (take (Suc m) (filter P xs))"
        by (rule set_take_subset_set_take) simp
      ultimately show ?thesis using False Suc by auto
    qed
  qed
qed

lemma sql_limit_filter_mono:
  "e \<in> set (sql_limit n xs) \<Longrightarrow> P e \<Longrightarrow> e \<in> set (sql_limit n (filter P xs))"
  by (auto simp: sql_limit_def take_filter_mono split: if_splits)

lemma sql_limit_map: "sql_limit n (map u xs) = map u (sql_limit n xs)"
  by (simp add: sql_limit_def take_map)

lemma set_sql_limit_subset: "set (sql_limit n xs) \<subseteq> set xs"
  by (auto simp: sql_limit_def dest: in_set_takeD)

lemma insort_key_map:
  assumes "\<And>x. f (u x) = f x"
  shows "insort_key f (u x) (map u ys) = map u (insort_key f x ys)"
  by (induction ys) (simp_all add: assms)

lemma sort_key_map:
  assumes "\<And>x. f (u x) = f x"
  shows "sort_key f (map u xs) = map u (sort_key f xs)"
proof (induction xs)
  case Nil
  then show ?case by simp
next
  case (Cons x xs)
  have "insort_key f (u x) (map u (sort_key f xs)) = map u (insort_key f x (sort_key f xs))"
    using assms by (rule insort_key_map)
  with Cons show ?case by simp
qed

text \<open>
  One statement on the queue seen from the selection: rows dropped by \<open>P\<close>, the others
  rewritten in place by \<open>u\<close>, which keeps creation times and makes no row eligible that
  was not. An entry that both leave alone keeps its place in the batch.
\<close>

lemma select_pending_step:
  assumes sel: "e \<in> set (select_pending mr bs d)"
    and q': "sync_queue d' = map u (filter P (sync_queue d))"
    and e: "u e = e" "P e"
    and cr: "\<And>r. ItemCreatedAt (u r) = ItemCreatedAt r"
    and el: "\<And>r. r \<in> set (sync_queue d) \<Longrightarrow> P r \<Longrightarrow> RetryCount (u r) < mr \<Longrightarrow> RetryCount r < mr"
  shows "e \<in> set (select_pending mr bs d')"
proof -
  let ?el = "\<lambda>r. RetryCount r < mr"
  let ?Q = "\<lambda>r. P r \<and> ?el (u r)"
  let ?L = "sort_key ItemCreatedAt (filter ?el (sync_queue d))"
  have f: "filter ?el (sync_queue d') = map u (filter ?Q (filter ?el (sync_queue d)))"
  proof -
    have "filter ?el (sync_queue d') = map u (filter ?Q (sync_queue d))"
      by (simp add: q' filter_map comp_def conj_commute)
    also have "filter ?Q (sync_queue d) = filter ?Q (filter ?el (sync_queue d))"
      using el by (auto intro: filter_cong)
    finally show ?thesis .
  qed
  have "sort_key ItemCreatedAt (filter ?el (sync_queue d')) = map u (filter ?Q ?L)"
    using sort_key_map [of ItemCreatedAt u "filter ?Q (filter ?el (sync_queue d))"] cr
    by (simp add: f filter_sort)
  then have s: "select_pending mr bs d' = map u (sql_limit bs (filter ?Q ?L))"
    by (simp add: select_pending_def sql_limit_map)
  have "e \<in> set (sql_limit bs ?L)" using sel by (simp add: select_pending_def)
  moreover from this have "?el e" using set_sql_limit_subset [of bs ?L] by auto
  ultimately have "e \<in> set (sql_limit bs (filter ?Q ?L))"
    using e by (intro sql_limit_filter_mono) simp_all
  then have "u e \<in> set (map u (sql_limit bs (filter ?Q ?L)))" by simp
  then show ?thesis using e s by simp
qed

lemma processSyncItem_queue_cases:
  "sync_queue (db (snd (processSyncItem env cfg item w))) = sync_queue (db w) \<or>
   sync_queue (db (snd (processSyncItem env cfg item w))) =
     filter (\<lambda>r. ItemID r \<noteq> ItemID item) (sync_queue (db w)) \<or>
   (\<exists>rc la em. sync_queue (db (snd (processSyncItem env cfg item w))) =
      map (\<lambda>r. if ItemID r = ItemID item
                then r\<lparr>RetryCount := rc, LastAttempt := la, ErrorMessage := em\<rparr> else r)
        (sync_queue (db w)))"
  by (auto simp: sync_defs sql_defs Let_def split: option.splits prod.splits sum.splits)

lemma processSyncItem_undecodable:
  assumes "json_unmarshal env (TaskData e) = None"
  shows "processSyncItem env cfg e w = (Some (Wrap ''failed to parse task data'' ErrJSON), w)"
  using assms by (simp add: processSyncItem_def GetTaskData_def)

lemma processSyncItem_keeps_selected:
  assumes "ItemID item \<noteq> ItemID e"
    and "\<forall>r \<in> set (sync_queue (db w)). ItemID r = ItemID item \<longrightarrow> RetryCount r < mr"
    and "e \<in> set (select_pending mr bs (db w))"
  shows "e \<in> set (select_pending mr bs (db (snd (processSyncItem env cfg item w))))"
proof -
  let ?d' = "db (snd (processSyncItem env cfg item w))"
  consider (same) "sync_queue ?d' = sync_queue (db w)"
    | (deleted) "sync_queue ?d' = filter (\<lambda>r. ItemID r \<noteq> ItemID item) (sync_queue (db w))"
    | (retried) rc la em where "sync_queue ?d' =
        map (\<lambda>r. if ItemID r = ItemID item
                  then r\<lparr>RetryCount := rc, LastAttempt := la, ErrorMessage := em\<rparr> else r)
          (sync_queue (db w))"
    using processSyncItem_queue_cases [of env cfg item w] by blast
  then show ?thesis
  proof cases
    case same
    then show ?thesis using assms(3) by (simp add: select_pending_def)
  next
    case deleted
    show ?thesis
    proof (rule select_pending_step [where u = "\<lambda>r. r" and P = "\<lambda>r. ItemID r \<noteq> ItemID item", OF assms(3)])
      show "sync_queue ?d' = map (\<lambda>r. r) (filter (\<lambda>r. ItemID r \<noteq> ItemID item) (sync_queue (db w)))"
        using deleted by simp
    qed (use assms(1) in auto)
  next
    case retried
    let ?u = "\<lambda>r. if ItemID r = ItemID item
                  then r\<lparr>RetryCount := rc, LastAttempt := la, ErrorMessage := em\<rparr> else r"
    show ?thesis
    proof (rule select_pending_step [where u = ?u and P = "\<lambda>r. True", OF assms(3)])
      show "sync_queue ?d' = map ?u (filter (\<lambda>r. True) (sync_queue (db w)))"
        using retried by simp
    next
      fix r assume "r \<in> set (sync_queue (db w))" "RetryCount (?u r) < mr"
      then show "RetryCount r < mr" using assms(2) by (auto split: if_splits)
    qed (use assms(1) in auto)
  qed
qed

lemma processSyncItem_keeps_others:
  assumes "r \<in> set (sync_queue (db w))" and "ItemID r \<noteq> ItemID item"
  shows "r \<in> set (sync_queue (db (snd (processSyncItem env cfg item w))))"
  using processSyncItem_queue_cases [of env cfg item w] assms by (auto simp: image_iff)

lemma map_ItemID_retry:
  "map ItemID (map (\<lambda>r. if ItemID r = j
                then r\<lparr>RetryCount := rc, LastAttempt := la, ErrorMessage := em\<rparr> else r) q) =
   map ItemID q"
  by (induction q) auto

lemma processSyncItem_distinct_ids:
  assumes "distinct (map ItemID (sync_queue (db w)))"
  shows "distinct (map ItemID (sync_queue (db (snd (processSyncItem env cfg item w)))))"
proof -
  have "map ItemID (sync_queue (db (snd (processSyncItem env cfg item w)))) =
          map ItemID (sync_queue (db w)) \<or>
        map ItemID (sync_queue (db (snd (processSyncItem env cfg item w)))) =
          map ItemID (filter (\<lambda>r. ItemID r \<noteq> ItemID item) (sync_queue (db w)))"
  proof -
    consider (same) "sync_queue (db (snd (processSyncItem env cfg item w))) = sync_queue (db w)"
      | (deleted) "sync_queue (db (snd (processSyncItem env cfg item w))) =
          filter (\<lambda>r. ItemID r \<noteq> ItemID item) (sync_queue (db w))"
      | (retried) rc la em where "sync_queue (db (snd (processSyncItem env cfg item w))) =
          map (\<lambda>r. if ItemID r = ItemID item
                    then r\<lparr>RetryCount := rc, LastAttempt := la, ErrorMessage := em\<rparr> else r)
            (sync_queue (db w))"
      using processSyncItem_queue_cases [of env cfg item w] by blast
    then show ?thesis
    proof cases
      case same
      then show ?thesis by simp
    next
      case deleted
      then show ?thesis by simp
    next
      case retried
      then show ?thesis by (simp add: map_ItemID_retry)
    qed
  qed
  then show ?thesis
    using assms by (auto simp: distinct_map_filter)
qed

lemma process_items_keeps_selected:
  assumes "json_unmarshal env (TaskData e) = None"
    and "distinct (map ItemID (sync_queue (db w)))"
    and "distinct (map ItemID items)"
    and "set items \<subseteq> set (sync_queue (db w))"
    and "\<forall>i \<in> set items. RetryCount i < mr"
    and "e \<in> set (select_pending mr bs (db w))"
  shows "distinct (map ItemID (sync_queue (db (process_items env cfg items w)))) \<and>
         e \<in> set (select_pending mr bs (db (process_items env cfg items w)))"
  using assms(2-)
proof (induction items arbitrary: w)
  case Nil
  then show ?case by simp
next
  case (Cons item items)
  let ?w1 = "snd (processSyncItem env cfg item w)"
  have eq: "e \<in> set (sync_queue (db w))"
    using Cons.prems(5) by (auto simp: select_pending_def sql_limit_def dest: in_set_takeD split: if_splits)
  have item_q: "item \<in> set (sync_queue (db w))" using Cons.prems(3) by simp
  have uniq: "r = item" if "r \<in> set (sync_queue (db w))" "ItemID r = ItemID item" for r
    using that item_q Cons.prems(1) by (meson distinct_map inj_onD)
  have d1: "distinct (map ItemID (sync_queue (db ?w1)))"
    using Cons.prems(1) by (rule processSyncItem_distinct_ids)
  have sub1: "set items \<subseteq> set (sync_queue (db ?w1))"
  proof
    fix r assume r: "r \<in> set items"
    then have "r \<in> set (sync_queue (db w))" using Cons.prems(3) by auto
    moreover have "ItemID r \<noteq> ItemID item" using r Cons.prems(2) by (auto simp: image_iff)
    ultimately show "r \<in> set (sync_queue (db ?w1))" by (rule processSyncItem_keeps_others)
  qed
  have sel1: "e \<in> set (select_pending mr bs (db ?w1))"
  proof (cases "item = e")
    case True
    then show ?thesis using Cons.prems(5) processSyncItem_undecodable [OF assms(1), of cfg w] by simp
  next
    case False
    then have "ItemID item \<noteq> ItemID e" using uniq [of e] eq by auto
    moreover have "\<forall>r \<in> set (sync_queue (db w)). ItemID r = ItemID item \<longrightarrow> RetryCount r < mr"
      using uniq Cons.prems(4) by auto
    ultimately show ?thesis using Cons.prems(5) by (intro processSyncItem_keeps_selected)
  qed
  have step: "db (process_items env cfg (item # items) w) = db (process_items env cfg items w')"
    if "db w' = db ?w1" "process_items env cfg (item # items) w = process_items env cfg items w'" for w'
    using that by simp
  obtain r w1 where p: "processSyncItem env cfg item w = (r, w1)"
    by (cases "processSyncItem env cfg item w")
  show ?case
  proof (cases r)
    case None
    have "process_items env cfg (item # items) w = process_items env cfg items w1"
      using p None by simp
    moreover have "distinct (map ItemID (sync_queue (db (process_items env cfg items w1)))) \<and>
         e \<in> set (select_pending mr bs (db (process_items env cfg items w1)))"
      using Cons.IH [of w1] d1 sub1 sel1 Cons.prems(2,4) p by simp
    ultimately show ?thesis by simp
  next
    case (Some err)
    let ?w2 = "log_event (LogProcessFailed (ItemID item) err) w1"
    have "process_items env cfg (item # items) w = process_items env cfg items ?w2"
      using p Some by simp
    moreover have "distinct (map ItemID (sync_queue (db (process_items env cfg items ?w2)))) \<and>
         e \<in> set (select_pending mr bs (db (process_items env cfg items ?w2)))"
      using Cons.IH [of ?w2] d1 sub1 sel1 Cons.prems(2,4) p by simp
    ultimately show ?thesis by simp
  qed
qed

lemma select_pending_subset:
  "set (select_pending mr bs d) \<subseteq> {r \<in> set (sync_queue d). RetryCount r < mr}"
  using set_sql_limit_subset [of bs "sort_key ItemCreatedAt (filter (\<lambda>i. RetryCount i < mr) (sync_queue d))"]
  by (auto simp: select_pending_def)

lemma select_pending_distinct_ids:
  assumes "distinct (map ItemID (sync_queue d))"
  shows "distinct (map ItemID (select_pending mr bs d))"
proof -
  have d: "distinct (sync_queue d)" and i: "inj_on ItemID (set (sync_queue d))"
    using assms by (simp_all add: distinct_map)
  have "distinct (select_pending mr bs d)"
    using d by (simp add: select_pending_def sql_limit_def)
  moreover have "inj_on ItemID (set (select_pending mr bs d))"
    using i select_pending_subset [of mr bs d] by (auto intro: inj_on_subset)
  ultimately show ?thesis by (simp add: distinct_map)
qed

lemma ProcessSyncQueue_keeps_selected:
  assumes "json_unmarshal env (TaskData e) = None"
    and "distinct (map ItemID (sync_queue (db w)))"
    and "e \<in> set (select_pending (MaxRetries cfg) (SyncBatchSize cfg) (db w))"
  shows "distinct (map ItemID (sync_queue (db (snd (ProcessSyncQueue env cfg w))))) \<and>
         e \<in> set (select_pending (MaxRetries cfg) (SyncBatchSize cfg)
                    (db (snd (ProcessSyncQueue env cfg w))))"
proof (cases "store_fails env (store_calls w)")
  case True
  then have "db (snd (ProcessSyncQueue env cfg w)) = db w"
    by (simp add: ProcessSyncQueue_def store_call_def)
  then show ?thesis using assms by simp
next
  case False
  let ?sel = "select_pending (MaxRetries cfg) (SyncBatchSize cfg) (db w)"
  let ?items = "filter (\<lambda>r. \<not> scan_fails env r) ?sel"
  let ?w2 = "snd (scan_rows env ?sel (snd (store_call env w)))"
  have q: "snd (ProcessSyncQueue env cfg w) = process_items env cfg ?items ?w2"
    using False by (simp add: ProcessSyncQueue_def store_call_def case_prod_beta)
  have d2: "db ?w2 = db w" by (simp add: store_call_def)
  have "distinct (map ItemID (sync_queue (db (process_items env cfg ?items ?w2)))) \<and>
        e \<in> set (select_pending (MaxRetries cfg) (SyncBatchSize cfg)
                   (db (process_items env cfg ?items ?w2)))"
  proof (rule process_items_keeps_selected [OF assms(1)])
    show "distinct (map ItemID (sync_queue (db ?w2)))" using assms(2) d2 by simp
    show "distinct (map ItemID ?items)"
      using select_pending_distinct_ids [OF assms(2), of "MaxRetries cfg" "SyncBatchSize cfg"]
      by (simp add: distinct_map_filter)
    show "set ?items \<subseteq> set (sync_queue (db ?w2))"
      using select_pending_subset [of "MaxRetries cfg" "SyncBatchSize cfg" "db w"] d2 by auto
    show "\<forall>i \<in> set ?items. RetryCount i < MaxRetries cfg"
      using select_pending_subset [of "MaxRetries cfg" "SyncBatchSize cfg" "db w"] by auto
    show "e \<in> set (select_pending (MaxRetries cfg) (SyncBatchSize cfg) (db ?w2))"
      using assms(3) d2 by simp
  qed
  then show ?thesis by (simp only: q)
qed

lemma passes_keep_selected:
  assumes "json_unmarshal env (TaskData e) = None"
    and "distinct (map ItemID (sync_queue (db w)))"
    and "e \<in> set (select_pending (MaxRetries cfg) (SyncBatchSize cfg) (db w))"
  shows "e \<in> set (select_pending (MaxRetries cfg) (SyncBatchSize cfg) (db (passes env cfg n w)))"
  using assms(2,3)
proof (induction n arbitrary: w)
  case 0
  then show ?case by simp
next
  case (Suc n)
  from ProcessSyncQueue_keeps_selected [OF assms(1) Suc.prems]
  show ?case using Suc.IH [of "snd (ProcessSyncQueue env cfg w)"] by simp
qed

section \<open>Selection and order of delivery\<close>

lemma sorted_sql_limit: "sorted (map f xs) \<Longrightarrow> sorted (map f (sql_limit n xs))"
  by (simp add: sql_limit_def take_map [symmetric] sorted_wrt_take)

lemma sorted_take_before_rest:
  assumes "sorted (map f L)" and "i \<in> set (take n L)" and "j \<in> set L" and "j \<notin> set (take n L)"
  shows "f i \<le> f j"
proof -
  have "j \<in> set (drop n L)"
    using assms(3,4) by (metis Un_iff append_take_drop_id set_append)
  moreover have "sorted (map f (take n L) @ map f (drop n L))"
    using assms(1) by (simp add: map_append [symmetric] del: map_append)
  ultimately show ?thesis
    using assms(2) by (auto simp: sorted_append)
qed

text \<open>
  C3, as the code has it. With a positive batch size and a readable queue, the entries
  the pass selects are the first \<open>SyncBatchSize\<close> of the list that holds exactly the
  entries with \<open>RetryCount < MaxRetries\<close>, in ascending order of creation time, entries of
  equal creation time in insertion order. So no selected entry was created later than an
  eligible entry that was left out, and in a queue whose creation times do not decrease
  along insertion order the selection is the first \<open>SyncBatchSize\<close> eligible entries in
  insertion order. The calls the pass makes to the remote authority are, in the order of
  selection, the selected entries (kind and snapshot) that scan and decode: all of them,
  one for one, when every selected entry scans and decodes.
\<close>

theorem ProcessSyncQueue_selects_by_creation_time:
  assumes "0 < SyncBatchSize cfg"
    and "\<not> store_fails env (store_calls w)"
  shows "(\<exists>L. select_pending (MaxRetries cfg) (SyncBatchSize cfg) (db w) =
                take (nat (SyncBatchSize cfg)) L \<and>
              sorted (map ItemCreatedAt L) \<and>
              (\<forall>k. filter (\<lambda>i. ItemCreatedAt i = k) L =
                   filter (\<lambda>i. ItemCreatedAt i = k)
                     (filter (\<lambda>i. RetryCount i < MaxRetries cfg) (sync_queue (db w))))) \<and>
         (\<forall>i \<in> set (select_pending (MaxRetries cfg) (SyncBatchSize cfg) (db w)).
            \<forall>j \<in> set (sync_queue (db w)).
              RetryCount j < MaxRetries cfg \<and>
              j \<notin> set (select_pending (MaxRetries cfg) (SyncBatchSize cfg) (db w))
              \<longrightarrow> ItemCreatedAt i \<le> ItemCreatedAt j) \<and>
         set (select_pending (MaxRetries cfg) (SyncBatchSize cfg) (db w)) \<subseteq>
           {i \<in> set (sync_queue (db w)). RetryCount i < MaxRetries cfg} \<and>
         sorted (map ItemCreatedAt (select_pending (MaxRetries cfg) (SyncBatchSize cfg) (db w))) \<and>
         length (select_pending (MaxRetries cfg) (SyncBatchSize cfg) (db w)) =
           min (nat (SyncBatchSize cfg))
             (length (filter (\<lambda>i. RetryCount i < MaxRetries cfg) (sync_queue (db w)))) \<and>
         (sorted (map ItemCreatedAt (sync_queue (db w))) \<longrightarrow>
            select_pending (MaxRetries cfg) (SyncBatchSize cfg) (db w) =
              take (nat (SyncBatchSize cfg))
                (filter (\<lambda>i. RetryCount i < MaxRetries cfg) (sync_queue (db w)))) \<and>
         calls_made (snd (ProcessSyncQueue env cfg w)) =
           calls_made w @ deliverable env (select_pending (MaxRetries cfg) (SyncBatchSize cfg) (db w)) \<and>
         ((\<forall>i \<in> set (select_pending (MaxRetries cfg) (SyncBatchSize cfg) (db w)).
             \<not> scan_fails env i \<and> json_unmarshal env (TaskData i) \<noteq> None) \<longrightarrow>
          map fst (deliverable env (select_pending (MaxRetries cfg) (SyncBatchSize cfg) (db w))) =
            map OperationType (select_pending (MaxRetries cfg) (SyncBatchSize cfg) (db w)) \<and>
          map (\<lambda>c. Some (snd c))
              (deliverable env (select_pending (MaxRetries cfg) (SyncBatchSize cfg) (db w))) =
            map (\<lambda>i. json_unmarshal env (TaskData i))
              (select_pending (MaxRetries cfg) (SyncBatchSize cfg) (db w)))"
proof -
  let ?el = "\<lambda>i. RetryCount i < MaxRetries cfg"
  let ?L = "sort_key ItemCreatedAt (filter ?el (sync_queue (db w)))"
  let ?sel = "select_pending (MaxRetries cfg) (SyncBatchSize cfg) (db w)"
  have sel: "?sel = take (nat (SyncBatchSize cfg)) ?L"
    using assms(1) by (simp add: select_pending_def sql_limit_def)
  have 1: "\<exists>L. ?sel = take (nat (SyncBatchSize cfg)) L \<and> sorted (map ItemCreatedAt L) \<and>
              (\<forall>k. filter (\<lambda>i. ItemCreatedAt i = k) L =
                   filter (\<lambda>i. ItemCreatedAt i = k) (filter ?el (sync_queue (db w))))"
  proof (intro exI conjI allI)
    show "?sel = take (nat (SyncBatchSize cfg)) ?L" by (rule sel)
    show "sorted (map ItemCreatedAt ?L)" by simp
    show "filter (\<lambda>i. ItemCreatedAt i = k) ?L =
          filter (\<lambda>i. ItemCreatedAt i = k) (filter ?el (sync_queue (db w)))" for k
      by (rule sort_key_stable)
  qed
  have 2: "\<forall>i \<in> set ?sel. \<forall>j \<in> set (sync_queue (db w)).
              ?el j \<and> j \<notin> set ?sel \<longrightarrow> ItemCreatedAt i \<le> ItemCreatedAt j"
  proof (intro ballI impI)
    fix i j
    assume i: "i \<in> set ?sel" and j: "j \<in> set (sync_queue (db w))"
      and c: "?el j \<and> j \<notin> set ?sel"
    have jl: "j \<in> set ?L" using j c by simp
    have sl: "sorted (map ItemCreatedAt ?L)" by simp
    have it: "i \<in> set (take (nat (SyncBatchSize cfg)) ?L)" using i sel by simp
    have jt: "j \<notin> set (take (nat (SyncBatchSize cfg)) ?L)" using c sel by simp
    show "ItemCreatedAt i \<le> ItemCreatedAt j"
      using sl it jl jt by (rule sorted_take_before_rest)
  qed
  have 3: "set ?sel \<subseteq> {i \<in> set (sync_queue (db w)). ?el i}"
    by (rule select_pending_subset)
  have 4: "sorted (map ItemCreatedAt ?sel)"
    by (simp add: select_pending_def sorted_sql_limit)
  have 5: "length ?sel = min (nat (SyncBatchSize cfg)) (length (filter ?el (sync_queue (db w))))"
    using assms(1) by (simp add: select_pending_def sql_limit_def min.commute)
  have 6: "sorted (map ItemCreatedAt (sync_queue (db w))) \<longrightarrow>
            ?sel = take (nat (SyncBatchSize cfg)) (filter ?el (sync_queue (db w)))"
    using assms(1) by (simp add: select_pending_sorted sql_limit_def)
  have 7: "calls_made (snd (ProcessSyncQueue env cfg w)) = calls_made w @ deliverable env ?sel"
    using assms(2) by (rule ProcessSyncQueue_calls_made)
  have 8: "(\<forall>i \<in> set ?sel. \<not> scan_fails env i \<and> json_unmarshal env (TaskData i) \<noteq> None) \<longrightarrow>
          map fst (deliverable env ?sel) = map OperationType ?sel \<and>
          map (\<lambda>c. Some (snd c)) (deliverable env ?sel) =
            map (\<lambda>i. json_unmarshal env (TaskData i)) ?sel"
    using deliverable_all by blast
  from 1 2 3 4 5 6 7 8 show ?thesis by (intro conjI)
qed

theorem ProcessSyncQueue_selects_by_creation_time_witness:
  "sorted (map ItemCreatedAt (sync_queue (db demo_world))) \<and>
   0 < SyncBatchSize (demo_cfg\<lparr>SyncBatchSize := 1\<rparr>) \<and>
   \<not> store_fails demo_env (store_calls demo_world) \<and>
   select_pending (MaxRetries demo_cfg) 1 (db demo_world) = [demo_item1] \<and>
   calls_made (snd (ProcessSyncQueue demo_env (demo_cfg\<lparr>SyncBatchSize := 1\<rparr>) demo_world)) =
     [(OperationTypeCreate, demo_task_A)] \<and>
   select_pending (MaxRetries demo_cfg) (SyncBatchSize demo_cfg) (db demo_world) =
     [demo_item1, demo_item2] \<and>
   calls_made (snd (ProcessSyncQueue failing_env demo_cfg demo_world)) =
     [(OperationTypeCreate, demo_task_A), (OperationTypeUpdate, demo_task_B)] \<and>
   \<not> store_fails stepped_back_env (store_calls stepped_back_world) \<and>
   map ItemID (sync_queue (db stepped_back_world)) = [1, 2] \<and>
   map ItemCreatedAt (sync_queue (db stepped_back_world)) = [111, 41] \<and>
   map ItemID (select_pending (MaxRetries demo_cfg) 1 (db stepped_back_world)) = [2] \<and>
   calls_made (snd (ProcessSyncQueue stepped_back_env (demo_cfg\<lparr>SyncBatchSize := 1\<rparr>)
                      stepped_back_world)) =
     [(OperationTypeUpdate, updated_task)]"
  using ProcessSyncQueue_selects_by_creation_time [where w = demo_world and env = demo_env
      and cfg = "demo_cfg\<lparr>SyncBatchSize := 1\<rparr>"]
    ProcessSyncQueue_selects_by_creation_time [where w = demo_world and env = failing_env
      and cfg = demo_cfg]
    ProcessSyncQueue_selects_by_creation_time [where w = stepped_back_world
      and env = stepped_back_env and cfg = "demo_cfg\<lparr>SyncBatchSize := 1\<rparr>"]
  by (simp add: demo_defs task_defs sync_defs sql_defs ProcessSyncQueue_def select_pending_def
      sql_limit_def deliverable_def calls_made_def update_task_row_def List.map_filter_simps)

text \<open>
  The claim as stated fails. When the wall clock is set back between \<open>CreateTask\<close> and
  \<open>UpdateTask\<close>, the update entry (inserted second, id 2) carries the earlier creation
  time and the pass delivers the update before the create. And an entry whose snapshot
  does not decode is selected but not delivered.
\<close>

theorem insertion_order_counterexample:
  "map ItemID (sync_queue (db stepped_back_world)) = [1, 2] \<and>
   map OperationType (sync_queue (db stepped_back_world)) =
     [OperationTypeCreate, OperationTypeUpdate] \<and>
   map ItemCreatedAt (sync_queue (db stepped_back_world)) = [111, 41] \<and>
   map ItemID (select_pending (MaxRetries demo_cfg) (SyncBatchSize demo_cfg)
                 (db stepped_back_world)) = [2, 1] \<and>
   calls_made (snd (ProcessSyncQueue stepped_back_env demo_cfg stepped_back_world)) =
     [(OperationTypeUpdate, updated_task), (OperationTypeCreate, created_task)] \<and>
   select_pending (MaxRetries demo_cfg) (SyncBatchSize demo_cfg) (db corrupt_world) =
     [corrupt_item, demo_item2] \<and>
   calls_made (snd (ProcessSyncQueue demo_env demo_cfg corrupt_world)) =
     [(OperationTypeUpdate, demo_task_B)]"
  by (simp add: demo_defs task_defs sync_defs sql_defs ProcessSyncQueue_def select_pending_def
      sql_limit_def calls_made_def update_task_row_def)

section \<open>Invariants of the reachable states\<close>

lemma processSyncItem_effect:
  "sync_queue_seq (db (snd (processSyncItem env cfg item w))) = sync_queue_seq (db w) \<and>
   clock_reads w \<le> clock_reads (snd (processSyncItem env cfg item w)) \<and>
   (sync_queue (db (snd (processSyncItem env cfg item w))) = sync_queue (db w) \<or>
    sync_queue (db (snd (processSyncItem env cfg item w))) =
      filter (\<lambda>r. ItemID r \<noteq> ItemID item) (sync_queue (db w)) \<or>
    (\<exists>la em. sync_queue (db (snd (processSyncItem env cfg item w))) =
       map (\<lambda>r. if ItemID r = ItemID item
                 then r\<lparr>RetryCount := int64_incr (RetryCount item), LastAttempt := la,
                        ErrorMessage := em\<rparr>
                 else r)
         (sync_queue (db w))))"
  by (auto simp: sync_defs sql_defs Let_def split: option.splits prod.splits sum.splits)

lemma processSyncItem_ids_ok:
  assumes "ids_ok w" and "0 \<le> RetryCount item" and "RetryCount item < 2 ^ 63 - 1"
  shows "ids_ok (snd (processSyncItem env cfg item w))"
proof -
  let ?w' = "snd (processSyncItem env cfg item w)"
  have inc: "0 \<le> int64_incr (RetryCount item)"
    using assms(2,3) by (simp add: int64_incr_def)
  have seq: "sync_queue_seq (db ?w') = sync_queue_seq (db w)"
    using processSyncItem_effect [of env cfg item w] by simp
  consider (same) "sync_queue (db ?w') = sync_queue (db w)"
    | (deleted) "sync_queue (db ?w') = filter (\<lambda>r. ItemID r \<noteq> ItemID item) (sync_queue (db w))"
    | (retried) la em where "sync_queue (db ?w') =
        map (\<lambda>r. if ItemID r = ItemID item
                  then r\<lparr>RetryCount := int64_incr (RetryCount item), LastAttempt := la,
                         ErrorMessage := em\<rparr>
                  else r)
          (sync_queue (db w))"
    using processSyncItem_effect [of env cfg item w] by blast
  then show ?thesis
  proof cases
    case same
    then show ?thesis using assms(1) seq by (simp add: ids_ok_def)
  next
    case deleted
    then show ?thesis using assms(1) seq by (simp add: ids_ok_def distinct_map_filter)
  next
    case retried
    let ?u = "\<lambda>r. if ItemID r = ItemID item
                  then r\<lparr>RetryCount := int64_incr (RetryCount item), LastAttempt := la,
                         ErrorMessage := em\<rparr>
                  else r"
    have "map ItemID (sync_queue (db ?w')) = map ItemID (sync_queue (db w))"
      using retried by (simp only: map_ItemID_retry)
    moreover have "\<forall>i \<in> set (sync_queue (db ?w')). ItemID i \<le> sync_queue_seq (db w)"
      using assms(1) by (auto simp: ids_ok_def retried)
    moreover have "\<forall>i \<in> set (sync_queue (db ?w')). 0 \<le> RetryCount i"
      using assms(1) inc by (auto simp: ids_ok_def retried)
    ultimately show ?thesis using assms(1) seq by (simp add: ids_ok_def)
  qed
qed

lemma processSyncItem_chronological:
  assumes "mono (clock env)" and "chronological env w"
  shows "chronological env (snd (processSyncItem env cfg item w))"
proof -
  let ?w' = "snd (processSyncItem env cfg item w)"
  have "clock_reads w \<le> clock_reads ?w'"
    using processSyncItem_effect [of env cfg item w] by simp
  then have c: "clock env (clock_reads w) \<le> clock env (clock_reads ?w')"
    using monoD [OF assms(1)] by simp
  have m: "map ItemCreatedAt (map (\<lambda>r. if ItemID r = j
                then r\<lparr>RetryCount := rc, LastAttempt := la, ErrorMessage := em\<rparr> else r) q) =
           map ItemCreatedAt q" for j rc la em q
    by (induction q) auto
  consider (same) "sync_queue (db ?w') = sync_queue (db w)"
    | (deleted) "sync_queue (db ?w') = filter (\<lambda>r. ItemID r \<noteq> ItemID item) (sync_queue (db w))"
    | (retried) la em where "sync_queue (db ?w') =
        map (\<lambda>r. if ItemID r = ItemID item
                  then r\<lparr>RetryCount := int64_incr (RetryCount item), LastAttempt := la,
                         ErrorMessage := em\<rparr>
                  else r)
          (sync_queue (db w))"
    using processSyncItem_effect [of env cfg item w] by blast
  then show ?thesis
  proof cases
    case same
    then show ?thesis using assms(2) c by (fastforce simp: chronological_def)
  next
    case deleted
    then show ?thesis using assms(2) c by (fastforce simp: chronological_def sorted_filter)
  next
    case retried
    have "map ItemCreatedAt (sync_queue (db ?w')) = map ItemCreatedAt (sync_queue (db w))"
      by (simp add: retried m)
    moreover have "\<forall>i \<in> set (sync_queue (db ?w')). ItemCreatedAt i \<le> clock env (clock_reads w)"
      using assms(2) by (auto simp: chronological_def retried)
    ultimately show ?thesis using assms(2) c by (fastforce simp: chronological_def)
  qed
qed

lemma ids_ok_cong: "db w' = db w \<Longrightarrow> ids_ok w' = ids_ok w"
  by (simp add: ids_ok_def)

lemma chronological_cong:
  "db w' = db w \<Longrightarrow> clock_reads w' = clock_reads w \<Longrightarrow> chronological env w' = chronological env w"
  by (simp add: chronological_def)

lemma process_items_step:
  obtains w2 where "process_items env cfg (item # items) w = process_items env cfg items w2"
    and "db w2 = db (snd (processSyncItem env cfg item w))"
    and "clock_reads w2 = clock_reads (snd (processSyncItem env cfg item w))"
proof -
  obtain r w1 where p: "processSyncItem env cfg item w = (r, w1)"
    by (cases "processSyncItem env cfg item w")
  define w2 where
    "w2 = (case r of None \<Rightarrow> w1 | Some e \<Rightarrow> log_event (LogProcessFailed (ItemID item) e) w1)"
  have "process_items env cfg (item # items) w = process_items env cfg items w2"
    using p by (cases r) (simp_all add: w2_def)
  moreover have "db w2 = db (snd (processSyncItem env cfg item w))"
    "clock_reads w2 = clock_reads (snd (processSyncItem env cfg item w))"
    using p by (cases r; simp add: w2_def log_event_def)+
  ultimately show ?thesis using that by blast
qed

lemma process_items_ids_ok:
  assumes "\<forall>i \<in> set items. 0 \<le> RetryCount i \<and> RetryCount i < 2 ^ 63 - 1" and "ids_ok w"
  shows "ids_ok (process_items env cfg items w)"
  using assms
proof (induction items arbitrary: w)
  case Nil
  then show ?case by simp
next
  case (Cons item items)
  obtain w2 where n: "process_items env cfg (item # items) w = process_items env cfg items w2"
    and d: "db w2 = db (snd (processSyncItem env cfg item w))"
    by (rule process_items_step)
  have "ids_ok (snd (processSyncItem env cfg item w))"
    using Cons.prems by (intro processSyncItem_ids_ok) simp_all
  then have "ids_ok w2" using ids_ok_cong [OF d] by simp
  then show ?case using Cons.IH [of w2] Cons.prems(1) n by simp
qed

lemma process_items_chronological:
  assumes "mono (clock env)" and "chronological env w"
  shows "chronological env (process_items env cfg items w)"
  using assms(2)
proof (induction items arbitrary: w)
  case Nil
  then show ?case by simp
next
  case (Cons item items)
  obtain w2 where n: "process_items env cfg (item # items) w = process_items env cfg items w2"
    and d: "db w2 = db (snd (processSyncItem env cfg item w))"
      "clock_reads w2 = clock_reads (snd (processSyncItem env cfg item w))"
    by (rule process_items_step)
  have "chronological env (snd (processSyncItem env cfg item w))"
    using assms(1) Cons.prems by (rule processSyncItem_chronological)
  then have "chronological env w2" using chronological_cong [OF d] by simp
  then show ?case using Cons.IH [of w2] n by simp
qed

lemma ProcessSyncQueue_invariants:
  assumes "MaxRetries cfg < 2 ^ 63"
  shows "(ids_ok w \<longrightarrow> ids_ok (snd (ProcessSyncQueue env cfg w))) \<and>
         (mono (clock env) \<and> chronological env w \<longrightarrow>
            chronological env (snd (ProcessSyncQueue env cfg w)))"
proof (cases "store_fails env (store_calls w)")
  case True
  then have "db (snd (ProcessSyncQueue env cfg w)) = db w"
    "clock_reads (snd (ProcessSyncQueue env cfg w)) = clock_reads w"
    by (simp_all add: ProcessSyncQueue_def store_call_def)
  then show ?thesis using ids_ok_cong chronological_cong by blast
next
  case False
  let ?sel = "select_pending (MaxRetries cfg) (SyncBatchSize cfg) (db w)"
  let ?items = "filter (\<lambda>r. \<not> scan_fails env r) ?sel"
  let ?w2 = "snd (scan_rows env ?sel (snd (store_call env w)))"
  have q: "snd (ProcessSyncQueue env cfg w) = process_items env cfg ?items ?w2"
    using False by (simp add: ProcessSyncQueue_def store_call_def case_prod_beta)
  have cr: "clock_reads (snd (scan_rows env rs w0)) = clock_reads w0" for rs w0
    by (induction rs arbitrary: w0) (simp_all add: case_prod_beta log_event_def)
  have d2: "db ?w2 = db w" "clock_reads ?w2 = clock_reads w"
    by (simp_all add: cr store_call_def)
  have sub: "set ?items \<subseteq> {r \<in> set (sync_queue (db w)). RetryCount r < MaxRetries cfg}"
    using select_pending_subset [of "MaxRetries cfg" "SyncBatchSize cfg" "db w"] by auto
  show ?thesis
  proof (intro conjI impI)
    assume i: "ids_ok w"
    have "\<forall>i \<in> set ?items. 0 \<le> RetryCount i \<and> RetryCount i < 2 ^ 63 - 1"
      using sub i assms by (auto simp: ids_ok_def)
    moreover have "ids_ok ?w2" using i ids_ok_cong [OF d2(1)] by simp
    ultimately have "ids_ok (process_items env cfg ?items ?w2)"
      by (rule process_items_ids_ok)
    then show "ids_ok (snd (ProcessSyncQueue env cfg w))"
      by (simp only: q)
  next
    assume c: "mono (clock env) \<and> chronological env w"
    have "chronological env ?w2" using c chronological_cong [OF d2] by simp
    with c have "chronological env (process_items env cfg ?items ?w2)"
      by (intro process_items_chronological) simp_all
    then show "chronological env (snd (ProcessSyncQueue env cfg w))"
      by (simp only: q)
  qed
qed

text \<open>What the task service does to the queue: nothing, or one entry appended.\<close>

lemma Update_snd [simp]: "snd (Update env req t w) = w\<lparr>clock_reads := Suc (clock_reads w)\<rparr>"
  by (simp add: Update_def Now_def Let_def)

lemma SoftDelete_snd [simp]: "snd (SoftDelete env t w) = w\<lparr>clock_reads := Suc (clock_reads w)\<rparr>"
  by (simp add: SoftDelete_def Now_def)

lemma CreateTask_queue_effect:
  "clock_reads w \<le> clock_reads (snd (CreateTask env req uuid w)) \<and>
   (db (snd (CreateTask env req uuid w)) = db w \<or>
    (\<exists>q. sync_queue (db (snd (CreateTask env req uuid w))) = sync_queue (db w) @ [q] \<and>
         ItemID q = sync_queue_seq (db w) + 1 \<and>
         sync_queue_seq (db (snd (CreateTask env req uuid w))) = sync_queue_seq (db w) + 1 \<and>
         RetryCount q = 0 \<and> ItemCreatedAt q = clock env (Suc (clock_reads w)) \<and>
         clock_reads (snd (CreateTask env req uuid w)) = Suc (Suc (clock_reads w))))"
  by (simp add: CreateTask_def NewTask_def AddToQueueTx_def NewSyncQueueItem_def Now_def
      store_call_def insert_queue_item_def Let_def case_prod_beta
      split: option.splits sum.splits)

lemma UpdateTask_queue_effect:
  "clock_reads w \<le> clock_reads (snd (UpdateTask env tid upd w)) \<and>
   (db (snd (UpdateTask env tid upd w)) = db w \<or>
    (\<exists>q. sync_queue (db (snd (UpdateTask env tid upd w))) = sync_queue (db w) @ [q] \<and>
         ItemID q = sync_queue_seq (db w) + 1 \<and>
         sync_queue_seq (db (snd (UpdateTask env tid upd w))) = sync_queue_seq (db w) + 1 \<and>
         RetryCount q = 0 \<and> ItemCreatedAt q = clock env (Suc (clock_reads w)) \<and>
         clock_reads (snd (UpdateTask env tid upd w)) = Suc (Suc (clock_reads w))))"
  by (simp add: UpdateTask_def GetTaskByID_def AddToQueueTx_def NewSyncQueueItem_def Now_def
      store_call_def insert_queue_item_def update_task_row_def Let_def case_prod_beta
      split: option.splits sum.splits)

lemma DeleteTask_queue_effect:
  "clock_reads w \<le> clock_reads (snd (DeleteTask env tid w)) \<and>
   (db (snd (DeleteTask env tid w)) = db w \<or>
    (\<exists>q. sync_queue (db (snd (DeleteTask env tid w))) = sync_queue (db w) @ [q] \<and>
         ItemID q = sync_queue_seq (db w) + 1 \<and>
         sync_queue_seq (db (snd (DeleteTask env tid w))) = sync_queue_seq (db w) + 1 \<and>
         RetryCount q = 0 \<and> ItemCreatedAt q = clock env (Suc (clock_reads w)) \<and>
         clock_reads (snd (DeleteTask env tid w)) = Suc (Suc (clock_reads w))))"
  by (simp add: DeleteTask_def GetTaskByID_def AddToQueueTx_def NewSyncQueueItem_def Now_def
      store_call_def insert_queue_item_def soft_delete_row_def Let_def case_prod_beta
      split: option.splits sum.splits)

lemma enqueue_invariants:
  assumes "clock_reads w \<le> clock_reads w'"
    and "db w' = db w \<or>
      (\<exists>q. sync_queue (db w') = sync_queue (db w) @ [q] \<and>
         ItemID q = sync_queue_seq (db w) + 1 \<and>
         sync_queue_seq (db w') = sync_queue_seq (db w) + 1 \<and>
         RetryCount q = 0 \<and> ItemCreatedAt q = clock env (Suc (clock_reads w)) \<and>
         clock_reads w' = Suc (Suc (clock_reads w)))"
  shows "(ids_ok w \<longrightarrow> ids_ok w') \<and>
         (mono (clock env) \<and> chronological env w \<longrightarrow> chronological env w')"
proof (intro conjI impI)
  assume i: "ids_ok w"
  from assms(2) show "ids_ok w'"
  proof
    assume "db w' = db w"
    then show ?thesis using i by (simp add: ids_ok_def)
  next
    assume "\<exists>q. sync_queue (db w') = sync_queue (db w) @ [q] \<and>
         ItemID q = sync_queue_seq (db w) + 1 \<and>
         sync_queue_seq (db w') = sync_queue_seq (db w) + 1 \<and>
         RetryCount q = 0 \<and> ItemCreatedAt q = clock env (Suc (clock_reads w)) \<and>
         clock_reads w' = Suc (Suc (clock_reads w))"
    then obtain q where q: "sync_queue (db w') = sync_queue (db w) @ [q]"
      "ItemID q = sync_queue_seq (db w) + 1"
      "sync_queue_seq (db w') = sync_queue_seq (db w) + 1" "RetryCount q = 0"
      by blast
    have "ItemID q \<notin> ItemID ` set (sync_queue (db w))"
      using i q(2) by (fastforce simp: ids_ok_def)
    then show ?thesis using i q by (fastforce simp: ids_ok_def)
  qed
next
  assume c: "mono (clock env) \<and> chronological env w"
  have le: "clock env (clock_reads w) \<le> clock env k" if "clock_reads w \<le> k" for k
    using c that by (simp add: monoD)
  from assms(2) show "chronological env w'"
  proof
    assume d: "db w' = db w"
    have "clock env (clock_reads w) \<le> clock env (clock_reads w')"
      using le assms(1) by simp
    then show ?thesis using c d by (fastforce simp: chronological_def)
  next
    assume "\<exists>q. sync_queue (db w') = sync_queue (db w) @ [q] \<and>
         ItemID q = sync_queue_seq (db w) + 1 \<and>
         sync_queue_seq (db w') = sync_queue_seq (db w) + 1 \<and>
         RetryCount q = 0 \<and> ItemCreatedAt q = clock env (Suc (clock_reads w)) \<and>
         clock_reads w' = Suc (Suc (clock_reads w))"
    then obtain q where q: "sync_queue (db w') = sync_queue (db w) @ [q]"
      "ItemCreatedAt q = clock env (Suc (clock_reads w))"
      "clock_reads w' = Suc (Suc (clock_reads w))"
      by blast
    have a: "\<forall>i \<in> set (sync_queue (db w)). ItemCreatedAt i \<le> ItemCreatedAt q"
      using c q(2) le [of "Suc (clock_reads w)"] by (fastforce simp: chronological_def)
    have b: "ItemCreatedAt q \<le> clock env (clock_reads w')"
      using c q(2,3) by (simp add: monoD)
    have "sorted (map ItemCreatedAt (sync_queue (db w')))"
      using c a by (auto simp: chronological_def q(1) sorted_append)
    moreover have "\<forall>i \<in> set (sync_queue (db w')). ItemCreatedAt i \<le> clock env (clock_reads w')"
      using a b by (auto simp: q(1))
    ultimately show ?thesis by (simp add: chronological_def)
  qed
qed

text \<open>
  Every state the service can be in has unique queue ids and no negative retry count
  (the retry limit being a Go \<open>int\<close>), and, when the clock never runs backwards, a queue
  whose creation times follow insertion order.
\<close>

lemma evolves_invariants:
  assumes "evolves env cfg w0 w" and "MaxRetries cfg < 2 ^ 63"
  shows "(ids_ok w0 \<longrightarrow> ids_ok w) \<and>
         (mono (clock env) \<and> chronological env w0 \<longrightarrow> chronological env w)"
  using assms(1)
proof (induction rule: evolves.induct)
  case start
  then show ?case by simp
next
  case (create w req uuid)
  then show ?case
    using enqueue_invariants [of w "snd (CreateTask env req uuid w)" env]
      CreateTask_queue_effect [of w env req uuid] by blast
next
  case (update w tid upd)
  then show ?case
    using enqueue_invariants [of w "snd (UpdateTask env tid upd w)" env]
      UpdateTask_queue_effect [of w env tid upd] by blast
next
  case (delete w tid)
  then show ?case
    using enqueue_invariants [of w "snd (DeleteTask env tid w)" env]
      DeleteTask_queue_effect [of w env tid] by blast
next
  case (pass w)
  then show ?case
    using ProcessSyncQueue_invariants [OF assms(2), of w env] by blast
qed

lemma reachable_invariants:
  assumes "reachable env cfg w" and "MaxRetries cfg < 2 ^ 63"
  shows "ids_ok w \<and> (mono (clock env) \<longrightarrow> chronological env w)"
proof -
  have "ids_ok empty_world" and "chronological env empty_world"
    by (simp_all add: ids_ok_def chronological_def empty_world_def)
  then show ?thesis
    using evolves_invariants [of env cfg empty_world w] assms by (simp add: reachable_def)
qed

section \<open>Entries whose snapshot does not decode\<close>

lemma select_pending_append:
  assumes "sorted (map ItemCreatedAt (sync_queue d'))"
    and "sync_queue d' = sync_queue d @ [x]"
    and "e \<in> set (select_pending mr bs d)"
  shows "e \<in> set (select_pending mr bs d')"
proof -
  let ?P = "\<lambda>i. RetryCount i < mr"
  have s: "sorted (map ItemCreatedAt (sync_queue d))"
    using assms(1,2) by (simp add: sorted_append)
  have "e \<in> set (sql_limit bs (filter ?P (sync_queue d)))"
    using assms(3) s by (simp add: select_pending_sorted)
  then have "e \<in> set (sql_limit bs (filter ?P (sync_queue d) @ filter ?P [x]))"
    by (auto simp: sql_limit_def split: if_splits)
  then show ?thesis
    using assms(1,2) by (simp add: select_pending_sorted)
qed

lemma evolves_keeps_selected:
  assumes "json_unmarshal env (TaskData e) = None"
    and "mono (clock env)" and "MaxRetries cfg < 2 ^ 63"
    and "ids_ok w0" and "chronological env w0"
    and "e \<in> set (select_pending (MaxRetries cfg) (SyncBatchSize cfg) (db w0))"
    and "evolves env cfg w0 w"
  shows "e \<in> set (select_pending (MaxRetries cfg) (SyncBatchSize cfg) (db w))"
  using assms(7)
proof (induction rule: evolves.induct)
  case start
  then show ?case using assms(6) by simp
next
  case (pass w)
  have "ids_ok w" using evolves_invariants [OF pass.hyps assms(3)] assms(4) by simp
  then have "distinct (map ItemID (sync_queue (db w)))" by (simp add: ids_ok_def)
  then show ?case
    using ProcessSyncQueue_keeps_selected [OF assms(1) _ pass.IH] by simp
next
  case (create w req uuid)
  have "evolves env cfg w0 (snd (CreateTask env req uuid w))"
    using create.hyps by (rule evolves.create)
  then have "chronological env (snd (CreateTask env req uuid w))"
    using evolves_invariants [OF _ assms(3)] assms(2,5) by blast
  then have s: "sorted (map ItemCreatedAt (sync_queue (db (snd (CreateTask env req uuid w)))))"
    by (simp add: chronological_def)
  show ?case
    using CreateTask_queue_effect [of w env req uuid] create.IH s
    by (auto intro: select_pending_append)
next
  case (update w tid upd)
  have "evolves env cfg w0 (snd (UpdateTask env tid upd w))"
    using update.hyps by (rule evolves.update)
  then have "chronological env (snd (UpdateTask env tid upd w))"
    using evolves_invariants [OF _ assms(3)] assms(2,5) by blast
  then have s: "sorted (map ItemCreatedAt (sync_queue (db (snd (UpdateTask env tid upd w)))))"
    by (simp add: chronological_def)
  show ?case
    using UpdateTask_queue_effect [of w env tid upd] update.IH s
    by (auto intro: select_pending_append)
next
  case (delete w tid)
  have "evolves env cfg w0 (snd (DeleteTask env tid w))"
    using delete.hyps by (rule evolves.delete)
  then have "chronological env (snd (DeleteTask env tid w))"
    using evolves_invariants [OF _ assms(3)] assms(2,5) by blast
  then have s: "sorted (map ItemCreatedAt (sync_queue (db (snd (DeleteTask env tid w)))))"
    by (simp add: chronological_def)
  show ?case
    using DeleteTask_queue_effect [of w env tid] delete.IH s
    by (auto intro: select_pending_append)
qed

text \<open>
  C9, as the code has it. Processing an entry whose snapshot does not decode returns the
  parse error and changes nothing at all: not the entry (retry count, last attempt and
  error message stay as they were), not any task, not even the clock. In a queue with
  unique ids, such an entry that one pass selects is still in the queue, unchanged, and
  still selected after any number of passes. The same holds, when the clock never runs
  backwards, however the task service and the pass take turns from a state with a
  well-formed queue. The entry is never counted towards the retry limit, so its own
  processing never marks a task \<open>error\<close>.
\<close>

theorem undecodable_entry_stuck:
  assumes "json_unmarshal env (TaskData e) = None"
  shows "processSyncItem env cfg e w = (Some (Wrap ''failed to parse task data'' ErrJSON), w) \<and>
         (distinct (map ItemID (sync_queue (db w))) \<and>
          e \<in> set (select_pending (MaxRetries cfg) (SyncBatchSize cfg) (db w)) \<longrightarrow>
            e \<in> set (sync_queue (db (passes env cfg n w))) \<and>
            e \<in> set (select_pending (MaxRetries cfg) (SyncBatchSize cfg) (db (passes env cfg n w)))) \<and>
         (mono (clock env) \<and> MaxRetries cfg < 2 ^ 63 \<and> ids_ok w \<and> chronological env w \<and>
          e \<in> set (select_pending (MaxRetries cfg) (SyncBatchSize cfg) (db w)) \<and>
          evolves env cfg w w' \<longrightarrow>
            e \<in> set (sync_queue (db w')) \<and>
            e \<in> set (select_pending (MaxRetries cfg) (SyncBatchSize cfg) (db w')))"
proof (intro conjI impI)
  show "processSyncItem env cfg e w = (Some (Wrap ''failed to parse task data'' ErrJSON), w)"
    using assms by (rule processSyncItem_undecodable)
next
  assume a: "distinct (map ItemID (sync_queue (db w))) \<and>
          e \<in> set (select_pending (MaxRetries cfg) (SyncBatchSize cfg) (db w))"
  then show s: "e \<in> set (select_pending (MaxRetries cfg) (SyncBatchSize cfg) (db (passes env cfg n w)))"
    using passes_keep_selected [OF assms, of w cfg n] by simp
  then show "e \<in> set (sync_queue (db (passes env cfg n w)))"
    using select_pending_subset [of "MaxRetries cfg" "SyncBatchSize cfg" "db (passes env cfg n w)"]
    by auto
next
  assume a: "mono (clock env) \<and> MaxRetries cfg < 2 ^ 63 \<and> ids_ok w \<and> chronological env w \<and>
          e \<in> set (select_pending (MaxRetries cfg) (SyncBatchSize cfg) (db w)) \<and>
          evolves env cfg w w'"
  then show s: "e \<in> set (select_pending (MaxRetries cfg) (SyncBatchSize cfg) (db w'))"
    using evolves_keeps_selected [OF assms, of cfg w w'] by simp
  then show "e \<in> set (sync_queue (db w'))"
    using select_pending_subset [of "MaxRetries cfg" "SyncBatchSize cfg" "db w'"]
    by auto
qed

theorem undecodable_entry_stuck_witness:
  "json_unmarshal failing_env (TaskData corrupt_item) = None \<and>
   distinct (map ItemID (sync_queue (db corrupt_world))) \<and>
   select_pending (MaxRetries demo_cfg) (SyncBatchSize demo_cfg) (db corrupt_world) =
     [corrupt_item, demo_item2] \<and>
   processSyncItem failing_env demo_cfg corrupt_item corrupt_world =
     (Some (Wrap ''failed to parse task data'' ErrJSON), corrupt_world) \<and>
   select_pending (MaxRetries demo_cfg) (SyncBatchSize demo_cfg)
     (db (passes failing_env demo_cfg (Suc (Suc (Suc (Suc 0)))) corrupt_world)) = [corrupt_item] \<and>
   mono (clock failing_env) \<and> MaxRetries demo_cfg < 2 ^ 63 \<and> ids_ok busy_world \<and>
   chronological failing_env busy_world \<and>
   corrupt_item \<in> set (select_pending (MaxRetries demo_cfg) (SyncBatchSize demo_cfg) (db busy_world)) \<and>
   evolves failing_env demo_cfg busy_world busy_world_later \<and>
   map ItemID (select_pending (MaxRetries demo_cfg) (SyncBatchSize demo_cfg) (db busy_world_later)) =
     [1, 2, 3] \<and>
   corrupt_item \<in> set (select_pending (MaxRetries demo_cfg) (SyncBatchSize demo_cfg)
                         (db busy_world_later))"
proof -
  have ev: "evolves failing_env demo_cfg busy_world busy_world_later"
    unfolding busy_world_later_def by (intro evolves.pass evolves.create evolves.start)
  have m: "mono (clock failing_env)"
    by (simp add: mono_def failing_env_def)
  have b: "MaxRetries demo_cfg < 2 ^ 63 \<and> ids_ok busy_world \<and> chronological failing_env busy_world \<and>
    corrupt_item \<in> set (select_pending (MaxRetries demo_cfg) (SyncBatchSize demo_cfg) (db busy_world))"
    by (simp add: demo_defs busy_world_def ids_ok_def chronological_def select_pending_def sql_limit_def)
  have l: "map ItemID (select_pending (MaxRetries demo_cfg) (SyncBatchSize demo_cfg) (db busy_world_later)) =
     [1, 2, 3]"
    by (simp add: demo_defs busy_world_def busy_world_later_def task_defs sync_defs sql_defs
        int64_incr_def ProcessSyncQueue_def select_pending_def sql_limit_def)
  have p: "json_unmarshal failing_env (TaskData corrupt_item) = None \<and>
   distinct (map ItemID (sync_queue (db corrupt_world))) \<and>
   select_pending (MaxRetries demo_cfg) (SyncBatchSize demo_cfg) (db corrupt_world) =
     [corrupt_item, demo_item2] \<and>
   select_pending (MaxRetries demo_cfg) (SyncBatchSize demo_cfg)
     (db (passes failing_env demo_cfg (Suc (Suc (Suc (Suc 0)))) corrupt_world)) = [corrupt_item]"
    by (simp add: demo_defs sync_defs sql_defs int64_incr_def ProcessSyncQueue_def
      select_pending_def sql_limit_def)
  show ?thesis
    using undecodable_entry_stuck [where env = failing_env and e = corrupt_item
      and cfg = demo_cfg and w = corrupt_world and n = "Suc (Suc (Suc (Suc 0)))"
      and w' = corrupt_world]
     undecodable_entry_stuck [where env = failing_env and e = corrupt_item
      and cfg = demo_cfg and w = busy_world and n = 0 and w' = busy_world_later]
     ev m b l p
    by simp
qed

text \<open>
  The claim as stated fails in its last clause: the task of an undecodable entry does
  reach \<open>error\<close> when another entry of the same task runs out of retries. Here the update
  entry of \<open>t1\<close> fails three times (\<open>MaxRetries = 3\<close>); the undecodable entry is untouched
  and \<open>t1\<close> is marked \<open>error\<close>.
\<close>

theorem undecodable_task_error_counterexample:
  "json_unmarshal failing_env (TaskData corrupt_item) = None \<and>
   TaskID corrupt_item = ''t1'' \<and>
   map ID (tasks (db corrupt_world)) = [''t1''] \<and>
   map SyncStatus (tasks (db corrupt_world)) = [SyncStatusPending] \<and>
   sync_queue (db corrupt_world) = [corrupt_item, demo_item2] \<and>
   sync_queue (db (passes failing_env demo_cfg (Suc (Suc (Suc 0))) corrupt_world)) =
     [corrupt_item,
      demo_item2\<lparr>RetryCount := 3, LastAttempt := Some 50,
                 ErrorMessage := Some ''simulated network error''\<rparr>] \<and>
   map ID (tasks (db (passes failing_env demo_cfg (Suc (Suc (Suc 0))) corrupt_world))) = [''t1''] \<and>
   map SyncStatus (tasks (db (passes failing_env demo_cfg (Suc (Suc (Suc 0))) corrupt_world))) =
     [SyncStatusError]"
  by (simp add: demo_defs sync_defs sql_defs int64_incr_def ProcessSyncQueue_def
      select_pending_def sql_limit_def)

end
